theory Spec2Isabelle
  imports Main "HOL-Library.AList"
begin

section \<open>crawler\_to\_md.py: a page to Markdown, with its images made local\<close>

text \<open>
  The program is one Python module, \<^verbatim>\<open>src/crawler_to_md.py\<close>. Its functions are embedded
  one by one under their own names. A Python \<^verbatim>\<open>str\<close> is a \<^typ>\<open>string\<close>: a list of
  characters, a character being a code point below 256. \<^verbatim>\<open>None\<close> is the \<open>None\<close> of an
  option type, an exception is the \<open>Inl\<close> of a sum.
\<close>

subsection \<open>Strings\<close>

text \<open>\<^verbatim>\<open>s.startswith(p)\<close> and \<^verbatim>\<open>s.endswith(e)\<close>.\<close>

definition startswith :: "string \<Rightarrow> string \<Rightarrow> bool" where
  "startswith s p = (take (length p) s = p)"

definition endswith :: "string \<Rightarrow> string \<Rightarrow> bool" where
  "endswith s e = (length e \<le> length s \<and> drop (length s - length e) s = e)"

text \<open>
  The characters that \<^verbatim>\<open>\s\<close> of the \<^verbatim>\<open>re\<close> module and \<^verbatim>\<open>str.strip()\<close> take for
  white space, among the code points below 256: 9 to 13, 28 to 32, 133 and 160.
\<close>

definition isspace :: "char \<Rightarrow> bool" where
  "isspace c = (let n = (of_char c :: nat) in
     (9 \<le> n \<and> n \<le> 13) \<or> (28 \<le> n \<and> n \<le> 32) \<or> n = 133 \<or> n = 160)"

text \<open>\<^verbatim>\<open>s.strip()\<close>: white space removed at both ends.\<close>

definition strip :: "string \<Rightarrow> string" where
  "strip s = rev (dropWhile isspace (rev (dropWhile isspace s)))"

text \<open>
  \<^verbatim>\<open>s.lower()\<close> on code points below 256: the letters A to Z, and the Latin-1 capitals
  192 to 222 without the multiplication sign 215, move up by 32.
\<close>

definition lower_char :: "char \<Rightarrow> char" where
  "lower_char c = (let n = (of_char c :: nat) in
     if (65 \<le> n \<and> n \<le> 90) \<or> (192 \<le> n \<and> n \<le> 222 \<and> n \<noteq> 215)
     then char_of (n + 32) else c)"

definition lower :: "string \<Rightarrow> string" where
  "lower s = map lower_char s"

subsection \<open>\<^verbatim>\<open>sanitize_filename\<close> (lines 21 to 50)\<close>

text \<open>\<^verbatim>\<open>.replace('\n', ' ').replace('\r', ' ').replace('\t', ' ')\<close>\<close>

definition replace_breaks :: "string \<Rightarrow> string" where
  "replace_breaks s =
     map (\<lambda>c. if c = CHR 0x0A \<or> c = CHR 0x0D \<or> c = CHR 0x09 then CHR '' '' else c) s"

text \<open>The character class \<^verbatim>\<open>[\\/*?:"<>|]\<close> of \<^verbatim>\<open>invalid_chars\<close>.\<close>

definition invalid_chars :: "char set" where
  "invalid_chars = {CHR 0x5C, CHR ''/'', CHR ''*'', CHR ''?'', CHR '':'', CHR 0x22,
     CHR ''<'', CHR ''>'', CHR ''|''}"

text \<open>\<^verbatim>\<open>re.sub(invalid_chars, '_', filename)\<close>\<close>

definition sub_invalid :: "string \<Rightarrow> string" where
  "sub_invalid s = map (\<lambda>c. if c \<in> invalid_chars then CHR ''_'' else c) s"

text \<open>
  \<^verbatim>\<open>re.sub(r'\s+', ' ', sanitized)\<close>: every maximal run of white space becomes one
  space. A white space character followed by another one is dropped, the last one of a
  run is replaced.
\<close>

fun sub_spaces :: "string \<Rightarrow> string" where
  "sub_spaces [] = []"
| "sub_spaces [c] = (if isspace c then '' '' else [c])"
| "sub_spaces (c # d # cs) =
     (if isspace c then (if isspace d then sub_spaces (d # cs) else CHR '' '' # sub_spaces (d # cs))
      else c # sub_spaces (d # cs))"

definition sanitize_filename :: "string option \<Rightarrow> string" where
  "sanitize_filename filename =
     (case filename of
        None \<Rightarrow> ''untitled''
      | Some name \<Rightarrow>
          (let name1 = replace_breaks name;
               sanitized = sub_invalid name1;
               sanitized = sub_spaces sanitized;
               sanitized = (if length sanitized > 100 then take 97 sanitized @ ''...''
                            else sanitized);
               sanitized = strip sanitized
           in if sanitized = [] then ''untitled'' else sanitized))"

text \<open>The steps of \<^verbatim>\<open>sanitize_filename\<close> before the final test for emptiness.\<close>

definition sanitize_steps :: "string \<Rightarrow> string" where
  "sanitize_steps name =
     (let sanitized = sub_spaces (sub_invalid (replace_breaks name))
      in strip (if length sanitized > 100 then take 97 sanitized @ ''...'' else sanitized))"

subsection \<open>The library: \<^verbatim>\<open>os.path\<close>, and what is taken as given\<close>

text \<open>
  \<^verbatim>\<open>os.path\<close> is the POSIX one (\<^verbatim>\<open>posixpath\<close>). \<^verbatim>\<open>s.rfind(c)\<close> is the last index of
  \<open>c\<close> in \<open>s\<close>, or \<open>-1\<close>.
\<close>

definition rfind :: "string \<Rightarrow> char \<Rightarrow> int" where
  "rfind s c =
     (if c \<in> set s then int (length s) - 1 - int (length (takeWhile (\<lambda>x. x \<noteq> c) (rev s)))
      else - 1)"

text \<open>
  \<^verbatim>\<open>os.path.splitext(p)\<close>: the extension starts at the last dot of the last path
  component, unless only dots precede it there.
\<close>

definition splitext :: "string \<Rightarrow> string \<times> string" where
  "splitext p =
     (let sepIndex = rfind p CHR ''/'';
          dotIndex = rfind p CHR ''.''
      in if dotIndex > sepIndex
            \<and> list_ex (\<lambda>c. c \<noteq> CHR ''.'')
                 (drop (nat (sepIndex + 1)) (take (nat dotIndex) p))
         then (take (nat dotIndex) p, drop (nat dotIndex) p)
         else (p, []))"

text \<open>\<^verbatim>\<open>os.path.join(a, b)\<close>\<close>

definition path_join :: "string \<Rightarrow> string \<Rightarrow> string" where
  "path_join a b =
     (if startswith b ''/'' then b
      else if a = [] \<or> endswith a ''/'' then a @ b
      else a @ ''/'' @ b)"

text \<open>\<^verbatim>\<open>os.path.dirname(p)\<close>\<close>

definition dirname :: "string \<Rightarrow> string" where
  "dirname p =
     (let head = take (nat (rfind p CHR ''/'' + 1)) p
      in if head \<noteq> [] \<and> head \<noteq> replicate (length head) CHR ''/''
         then rev (dropWhile (\<lambda>c. c = CHR ''/'') (rev head))
         else head)"

text \<open>
  The parsed page of \<^verbatim>\<open>BeautifulSoup\<close>: a tag has a name, its attributes in order and
  its children; the text between tags is a \<^verbatim>\<open>NavigableString\<close>. The document itself is
  a tag, named \<^verbatim>\<open>[document]\<close>.
\<close>

datatype node = Tag string "(string \<times> string) list" "node list" | NavigableString string

text \<open>The exceptions the program can meet.\<close>

datatype exn = ValueError | OSError | RequestException | RuntimeError

text \<open>
  The functions of other packages are parameters of the model, with the exceptions they
  are documented to raise:
  \<^item> \<open>urljoin base url\<close> is \<^verbatim>\<open>urllib.parse.urljoin(base, url)\<close>, and \<open>urlparse_path url\<close>
    is \<^verbatim>\<open>urllib.parse.urlparse(url).path\<close>; both raise \<^verbatim>\<open>ValueError\<close> on a malformed
    URL;
  \<^item> \<open>md5_hexdigest s\<close> is \<^verbatim>\<open>hashlib.md5(s.encode()).hexdigest()\<close>;
  \<^item> \<open>relpath path start\<close> is \<^verbatim>\<open>os.path.relpath(path, start)\<close>, which on POSIX raises
    only when \<open>path\<close> is empty; the program never calls it so;
  \<^item> \<open>parse_html content\<close> is \<^verbatim>\<open>BeautifulSoup(content, 'html.parser')\<close>;
  \<^item> \<open>markdownify n\<close> is \<^verbatim>\<open>markdownify.markdownify(str(n), heading_style="ATX")\<close>.
\<close>

record lib =
  urljoin :: "string \<Rightarrow> string \<Rightarrow> exn + string"
  urlparse_path :: "string \<Rightarrow> exn + string"
  md5_hexdigest :: "string \<Rightarrow> string"
  relpath :: "string \<Rightarrow> string \<Rightarrow> string"
  parse_html :: "string \<Rightarrow> node"
  markdownify :: "node \<Rightarrow> exn + string"

subsection \<open>The disk and the network\<close>

text \<open>
  What \<^verbatim>\<open>requests.get\<close> gives: an exception, or a response with its status, its body,
  and \<open>Some k\<close> when the connection breaks after \<open>k\<close> characters of the body.
\<close>

datatype http_result = Raises exn | Response int string "nat option"

text \<open>
  The state the program acts on. \<open>files\<close> maps every path that exists to its content
  (\<^verbatim>\<open>os.path.exists(p)\<close> is \<open>files w p \<noteq> None\<close>); \<open>mkdir_fails\<close> and \<open>open_fails\<close>
  tell where \<^verbatim>\<open>os.makedirs(d, exist_ok=True)\<close> and \<^verbatim>\<open>open(p, 'wb')\<close> raise
  \<^verbatim>\<open>OSError\<close>; \<open>net k url\<close> is the answer to a request for \<open>url\<close> made after \<open>k\<close>
  earlier requests; \<open>requests\<close> lists the URLs requested so far, the oldest first;
  \<open>now\<close> is \<^verbatim>\<open>time.strftime("%Y%m%d_%H%M%S")\<close>.
\<close>

record world =
  files :: "string \<Rightarrow> string option"
  mkdir_fails :: "string \<Rightarrow> bool"
  open_fails :: "string \<Rightarrow> bool"
  net :: "nat \<Rightarrow> string \<Rightarrow> http_result"
  requests :: "string list"
  now :: string

text \<open>\<^verbatim>\<open>requests.get(url, ...)\<close>: the request is made, and recorded.\<close>

definition requests_get :: "world \<Rightarrow> string \<Rightarrow> http_result \<times> world" where
  "requests_get w url = (net w (length (requests w)) url, w\<lparr>requests := requests w @ [url]\<rparr>)"

subsection \<open>\<^verbatim>\<open>should_download_image\<close> (lines 52 to 66)\<close>

definition IGNORED_EXTENSIONS :: "string list" where
  "IGNORED_EXTENSIONS = [''.ico'', ''.webp'', ''.svg'', ''.gif'', ''.bmp'', ''.tiff'']"

text \<open>The loop over the extensions: \<open>False\<close> at the first one the path ends with.\<close>

fun scan_extensions :: "string \<Rightarrow> string list \<Rightarrow> bool" where
  "scan_extensions path [] = True"
| "scan_extensions path (ext # exts) =
     (if endswith path ext then False else scan_extensions path exts)"

definition should_download_image :: "lib \<Rightarrow> string \<Rightarrow> exn + bool" where
  "should_download_image L img_url =
     (case urlparse_path L img_url of
        Inl e \<Rightarrow> Inl e
      | Inr p \<Rightarrow> Inr (scan_extensions (lower p) IGNORED_EXTENSIONS))"

subsection \<open>\<^verbatim>\<open>download_image\<close> (lines 68 to 112)\<close>

text \<open>Lines 74 and 75: a URL that is not absolute is resolved against the page's URL.\<close>

definition resolve_url :: "lib \<Rightarrow> string \<Rightarrow> string \<Rightarrow> exn + string" where
  "resolve_url L img_url base_url =
     (if startswith img_url ''http://'' \<or> startswith img_url ''https://''
      then Inr img_url else urljoin L base_url img_url)"

text \<open>
  The body of the \<^verbatim>\<open>try\<close> block: the exception raised or the value returned, and the
  state it leaves. The second \<^verbatim>\<open>urlparse\<close> is the one of line 86.
\<close>

definition download_image_try ::
  "lib \<Rightarrow> world \<Rightarrow> string \<Rightarrow> string \<Rightarrow> string \<Rightarrow> (exn + string option) \<times> world" where
  "download_image_try L w img_url base_url img_folder =
     (case resolve_url L img_url base_url of
        Inl e \<Rightarrow> (Inl e, w)
      | Inr img_url \<Rightarrow>
     (case should_download_image L img_url of
        Inl e \<Rightarrow> (Inl e, w)
      | Inr False \<Rightarrow> (Inr None, w)
      | Inr True \<Rightarrow>
     (case urlparse_path L img_url of
        Inl e \<Rightarrow> (Inl e, w)
      | Inr path \<Rightarrow>
       (let img_hash = md5_hexdigest L img_url;
            extension = snd (splitext path);
            extension = (if extension = [] \<or> length extension > 5 then ''.jpg'' else extension);
            img_filename = img_hash @ extension;
            img_path = path_join img_folder img_filename
        in if mkdir_fails w (dirname img_path) then (Inl OSError, w)
           else if files w img_path = None then
             (case requests_get w img_url of
                (Raises e, w1) \<Rightarrow> (Inl e, w1)
              | (Response status_code content broken, w1) \<Rightarrow>
                  if status_code = 200 then
                    (if open_fails w1 img_path then (Inl OSError, w1)
                     else (case broken of
                             None \<Rightarrow>
                               (Inr (Some img_path),
                                w1\<lparr>files := (files w1)(img_path \<mapsto> content)\<rparr>)
                           | Some k \<Rightarrow>
                               (Inl RequestException,
                                w1\<lparr>files := (files w1)(img_path \<mapsto> take k content)\<rparr>)))
                  else (Inr None, w1))
           else (Inr (Some img_path), w)))))"

text \<open>
  The file name in the spec's words: the MD5 hash of the resolved URL, followed by the
  extension of the URL's path (as \<^verbatim>\<open>os.path.splitext\<close> gives it, with its dot) when
  there is one of at most 5 characters, and by \<^verbatim>\<open>.jpg\<close> otherwise.
\<close>

definition local_file_name :: "lib \<Rightarrow> string \<Rightarrow> string \<Rightarrow> string" where
  "local_file_name L url path =
     md5_hexdigest L url @
       (if snd (splitext path) \<noteq> [] \<and> length (snd (splitext path)) \<le> 5
        then snd (splitext path) else ''.jpg'')"

text \<open>The whole function: \<^verbatim>\<open>except Exception\<close> turns every exception into \<^verbatim>\<open>None\<close>.\<close>

definition download_image ::
  "lib \<Rightarrow> world \<Rightarrow> string \<Rightarrow> string \<Rightarrow> string \<Rightarrow> string option \<times> world" where
  "download_image L w img_url base_url img_folder =
     (case download_image_try L w img_url base_url img_folder of
        (Inl e, w') \<Rightarrow> (None, w')
      | (Inr r, w') \<Rightarrow> (r, w'))"

subsection \<open>Queries on the parsed page\<close>

text \<open>The descendants of a node in document order, as \<^verbatim>\<open>find_all\<close> and \<^verbatim>\<open>select\<close> visit them.\<close>

fun descendants :: "node \<Rightarrow> node list" where
  "descendants (NavigableString s) = []"
| "descendants (Tag name attrs contents) = concat (map (\<lambda>c. c # descendants c) contents)"

fun is_tag :: "string \<Rightarrow> node \<Rightarrow> bool" where
  "is_tag name (Tag n attrs contents) = (n = name)"
| "is_tag name (NavigableString s) = False"

text \<open>\<^verbatim>\<open>soup.find_all(name)\<close> and \<^verbatim>\<open>soup.find(name)\<close>\<close>

definition find_all :: "string \<Rightarrow> node \<Rightarrow> node list" where
  "find_all name soup = filter (is_tag name) (descendants soup)"

definition find_tag :: "string \<Rightarrow> node \<Rightarrow> node option" where
  "find_tag name soup = (case find_all name soup of [] \<Rightarrow> None | n # ns \<Rightarrow> Some n)"

text \<open>The words of an attribute value, as the parser splits \<^verbatim>\<open>class\<close>.\<close>

fun split_words :: "string \<Rightarrow> string \<Rightarrow> string list" where
  "split_words word [] = (if word = [] then [] else [word])"
| "split_words word (c # cs) =
     (if isspace c then (if word = [] then split_words [] cs else word # split_words [] cs)
      else split_words (word @ [c]) cs)"

text \<open>
  The selectors the program uses are a tag name, \<^verbatim>\<open>.class\<close> or \<^verbatim>\<open>#id\<close>; a text node
  matches none.
\<close>

fun matches :: "string \<Rightarrow> node \<Rightarrow> bool" where
  "matches selector (NavigableString s) = False"
| "matches selector (Tag name attrs contents) =
     (case selector of
        [] \<Rightarrow> False
      | c # rest \<Rightarrow>
          if c = CHR ''.'' then
            (case map_of attrs ''class'' of
               None \<Rightarrow> False
             | Some v \<Rightarrow> rest \<in> set (split_words [] v))
          else if c = CHR ''#'' then map_of attrs ''id'' = Some rest
          else name = selector)"

text \<open>\<^verbatim>\<open>soup.select_one(selector)\<close>: the first match in document order.\<close>

definition select_one :: "string \<Rightarrow> node \<Rightarrow> node option" where
  "select_one selector soup =
     (case filter (matches selector) (descendants soup) of [] \<Rightarrow> None | n # ns \<Rightarrow> Some n)"

text \<open>\<^verbatim>\<open>tag.string\<close>: the text of a tag with a single child, through single children.\<close>

fun tag_string :: "node \<Rightarrow> string option" where
  "tag_string (NavigableString s) = Some s"
| "tag_string (Tag name attrs [c]) = tag_string c"
| "tag_string (Tag name attrs contents) = None"

subsection \<open>\<^verbatim>\<open>process_images\<close> (lines 114 to 133)\<close>

text \<open>\<^verbatim>\<open>os.path.relpath(local_path, md_dir).replace('\\', '/')\<close>\<close>

definition rel_path :: "lib \<Rightarrow> string \<Rightarrow> string \<Rightarrow> string" where
  "rel_path L local_path md_file_path =
     map (\<lambda>c. if c = CHR 0x5C then CHR ''/'' else c)
       (relpath L local_path (dirname md_file_path))"

text \<open>The body of the loop, on the attributes of one \<^verbatim>\<open>img\<close> tag.\<close>

definition process_img ::
  "lib \<Rightarrow> world \<Rightarrow> (string \<times> string) list \<Rightarrow> string \<Rightarrow> string \<Rightarrow> string
     \<Rightarrow> (string \<times> string) list \<times> world" where
  "process_img L w attrs base_url img_folder md_file_path =
     (case map_of attrs ''src'' of
        None \<Rightarrow> (attrs, w)
      | Some src \<Rightarrow>
          if src = [] then (attrs, w)
          else if startswith src ''data:'' then (attrs, w)
          else (case download_image L w src base_url img_folder of
                  (None, w') \<Rightarrow> (attrs, w')
                | (Some local_path, w') \<Rightarrow>
                    if local_path = [] then (attrs, w')
                    else (AList.update ''src'' (rel_path L local_path md_file_path) attrs, w')))"

text \<open>
  The loop \<^verbatim>\<open>for img in soup.find_all('img')\<close> visits the \<^verbatim>\<open>img\<close> tags in document
  order and changes each in place: a walk through the tree that hands the state on.
\<close>

fun process_node ::
    "lib \<Rightarrow> string \<Rightarrow> string \<Rightarrow> string \<Rightarrow> world \<Rightarrow> node \<Rightarrow> node \<times> world"
  and process_nodes ::
    "lib \<Rightarrow> string \<Rightarrow> string \<Rightarrow> string \<Rightarrow> world \<Rightarrow> node list \<Rightarrow> node list \<times> world" where
  "process_node L base_url img_folder md_file_path w (NavigableString s) = (NavigableString s, w)"
| "process_node L base_url img_folder md_file_path w (Tag name attrs contents) =
     (case (if name = ''img'' then process_img L w attrs base_url img_folder md_file_path
            else (attrs, w)) of
        (attrs', w1) \<Rightarrow>
          (case process_nodes L base_url img_folder md_file_path w1 contents of
             (contents', w2) \<Rightarrow> (Tag name attrs' contents', w2)))"
| "process_nodes L base_url img_folder md_file_path w [] = ([], w)"
| "process_nodes L base_url img_folder md_file_path w (c # cs) =
     (case process_node L base_url img_folder md_file_path w c of
        (c', w1) \<Rightarrow>
          (case process_nodes L base_url img_folder md_file_path w1 cs of
             (cs', w2) \<Rightarrow> (c' # cs', w2)))"

text \<open>The document itself is no \<^verbatim>\<open>img\<close>: only its descendants are visited.\<close>

fun process_images ::
  "lib \<Rightarrow> world \<Rightarrow> node \<Rightarrow> string \<Rightarrow> string \<Rightarrow> string \<Rightarrow> node \<times> world" where
  "process_images L w (NavigableString s) base_url img_folder md_file_path =
     (NavigableString s, w)"
| "process_images L w (Tag name attrs contents) base_url img_folder md_file_path =
     (case process_nodes L base_url img_folder md_file_path w contents of
        (contents', w') \<Rightarrow> (Tag name attrs contents', w'))"

subsection \<open>\<^verbatim>\<open>replace_md_image_urls\<close> (lines 135 to 156)\<close>

text \<open>
  The pattern \<^verbatim>\<open>!\[(.*?)\]\((https?://[^)]+)\)\<close>, piece by piece. \<open>match_link\<close> is
  \<^verbatim>\<open>\]\((https?://[^)]+)\)\<close> at the start of a string: the URL and what follows the
  match. The greedy \<^verbatim>\<open>[^)]+\<close> takes every character up to the first \<^verbatim>\<open>)\<close>.
\<close>

definition match_link :: "string \<Rightarrow> (string \<times> string) option" where
  "match_link s =
     (if startswith s ''](http'' then
        (let s1 = drop 6 s;
             scheme = (if startswith s1 ''s'' then ''https'' else ''http'');
             s2 = (if startswith s1 ''s'' then drop 1 s1 else s1)
         in if startswith s2 ''://'' then
              (let s3 = drop 3 s2;
                   run = takeWhile (\<lambda>c. c \<noteq> CHR '')'') s3;
                   rest = dropWhile (\<lambda>c. c \<noteq> CHR '')'') s3
               in if run \<noteq> [] \<and> rest \<noteq> [] then Some (scheme @ ''://'' @ run, tl rest)
                  else None)
            else None)
      else None)"

text \<open>
  \<^verbatim>\<open>(.*?)\<close> and then the link: the lazy group grows one character at a time, never over
  a newline, until the link matches.
\<close>

fun match_alt :: "string \<Rightarrow> string \<Rightarrow> (string \<times> string \<times> string) option" where
  "match_alt alt [] = None"
| "match_alt alt (c # cs) =
     (case match_link (c # cs) of
        Some (url, rest) \<Rightarrow> Some (alt, url, rest)
      | None \<Rightarrow> if c = CHR 0x0A then None else match_alt (alt @ [c]) cs)"

text \<open>The whole pattern at the start of a string: the two groups and what follows.\<close>

definition match_img :: "string \<Rightarrow> (string \<times> string \<times> string) option" where
  "match_img s = (if startswith s ''!['' then match_alt [] (drop 2 s) else None)"

text \<open>\<^verbatim>\<open>replace_url(match)\<close>; \<open>group0\<close> is \<^verbatim>\<open>match.group(0)\<close>, the matched text.\<close>

definition replace_url ::
  "lib \<Rightarrow> world \<Rightarrow> string \<Rightarrow> string \<Rightarrow> string \<Rightarrow> string \<Rightarrow> string \<Rightarrow> string
     \<Rightarrow> string \<times> world" where
  "replace_url L w group0 alt_text img_url base_url img_folder md_file_path =
     (case download_image L w img_url base_url img_folder of
        (None, w') \<Rightarrow> (group0, w')
      | (Some local_path, w') \<Rightarrow>
          if local_path = [] then (group0, w')
          else (''!['' @ alt_text @ '']('' @ rel_path L local_path md_file_path @ '')'', w'))"

text \<open>
  \<^verbatim>\<open>re.sub(img_pattern, replace_url, markdown_text)\<close>: the text is read from the left;
  where the pattern matches, the match is replaced and reading goes on behind it.
\<close>

function replace_md_image_urls ::
  "lib \<Rightarrow> world \<Rightarrow> string \<Rightarrow> string \<Rightarrow> string \<Rightarrow> string \<Rightarrow> string \<times> world" where
  "replace_md_image_urls L w [] base_url img_folder md_file_path = ([], w)"
| "replace_md_image_urls L w (c # cs) base_url img_folder md_file_path =
     (case match_img (c # cs) of
        None \<Rightarrow>
          (case replace_md_image_urls L w cs base_url img_folder md_file_path of
             (out, w') \<Rightarrow> (c # out, w'))
      | Some (alt_text, img_url, rest) \<Rightarrow>
          (case replace_url L w (take (length (c # cs) - length rest) (c # cs)) alt_text img_url
                  base_url img_folder md_file_path of
             (repl, w1) \<Rightarrow>
               (case replace_md_image_urls L w1 rest base_url img_folder md_file_path of
                  (out, w2) \<Rightarrow> (repl @ out, w2))))"
  by pat_completeness auto
termination
proof (relation "measure (\<lambda>(L, w, s, base_url, img_folder, md_file_path). length s)")
  have link: "length r < length s" if "match_link s = Some (u, r)" for s u r
  proof -
    define t where "t = (if startswith (drop 6 s) ''s'' then drop 1 (drop 6 s) else drop 6 s)"
    from that have "r = tl (dropWhile (\<lambda>c. c \<noteq> CHR '')'') (drop 3 t))"
      and "dropWhile (\<lambda>c. c \<noteq> CHR '')'') (drop 3 t) \<noteq> []"
      and "startswith s ''](http''"
      by (auto simp: match_link_def Let_def t_def split: if_splits)
    then have "length r < length (dropWhile (\<lambda>c. c \<noteq> CHR '')'') (drop 3 t))"
      by simp
    also have "\<dots> \<le> length (drop 3 t)"
      by (rule length_dropWhile_le)
    also have "\<dots> \<le> length s"
      by (simp add: t_def)
    finally show ?thesis .
  qed
  have alt: "length r < length s" if "match_alt a s = Some (b, u, r)" for a s b u r
    using that
  proof (induction a s rule: match_alt.induct)
    case (1 alt)
    then show ?case by simp
  next
    case (2 alt c cs)
    show ?case
    proof (cases "match_link (c # cs)")
      case None
      with 2 show ?thesis
        by (fastforce split: if_splits)
    next
      case (Some ur)
      with 2 link [of "c # cs" "fst ur" "snd ur"] show ?thesis
        by (cases ur) auto
    qed
  qed
  have img: "length r < length s" if "match_img s = Some (b, u, r)" for s b u r
  proof -
    from that have "match_alt [] (drop 2 s) = Some (b, u, r)"
      by (simp add: match_img_def split: if_splits)
    from alt [OF this] show ?thesis by simp
  qed
  show "wf (measure (\<lambda>(L, w, s, base_url, img_folder, md_file_path). length s))"
    by simp
  show "((L, w, cs, base_url, img_folder, md_file_path),
         (L, w, c # cs, base_url, img_folder, md_file_path))
        \<in> measure (\<lambda>(L, w, s, base_url, img_folder, md_file_path). length s)"
    for L w c cs base_url img_folder md_file_path
    by simp
  show "((L, w1, rest, base_url, img_folder, md_file_path),
         (L, w, c # cs, base_url, img_folder, md_file_path))
        \<in> measure (\<lambda>(L, w, s, base_url, img_folder, md_file_path). length s)"
    if "match_img (c # cs) = Some x2" and "(alt_text, y) = x2" and "(img_url, rest) = y"
    for L w c cs base_url img_folder md_file_path x2 alt_text y img_url rest xa repl w1
    using img [of "c # cs" alt_text img_url rest] that by simp
qed

subsection \<open>\<^verbatim>\<open>fetch_and_convert_to_markdown\<close> (lines 158 to 248)\<close>

text \<open>Lines 216 and 217: every match of the selector list is removed with its subtree.\<close>

definition NOISE_SELECTORS :: "string list" where
  "NOISE_SELECTORS = [''script'', ''style'', ''iframe'', ''nav'', ''footer'', ''.sidebar'',
     ''.advertisement'', ''.ads'']"

definition is_noise :: "node \<Rightarrow> bool" where
  "is_noise n = list_ex (\<lambda>selector. matches selector n) NOISE_SELECTORS"

fun decompose_noise :: "node \<Rightarrow> node" where
  "decompose_noise (NavigableString s) = NavigableString s"
| "decompose_noise (Tag name attrs contents) =
     Tag name attrs (map decompose_noise (filter (\<lambda>c. \<not> is_noise c) contents))"

text \<open>Lines 221 to 232: the first selector with a match wins, then the body, then the page.\<close>

definition CONTENT_SELECTORS :: "string list" where
  "CONTENT_SELECTORS = [''article'', ''main'', ''.main-content'', ''.post-content'',
     ''.entry-content'', ''.content'', ''#content'']"

fun first_content :: "node \<Rightarrow> string list \<Rightarrow> node option" where
  "first_content soup [] = None"
| "first_content soup (selector # selectors) =
     (case select_one selector soup of
        Some content \<Rightarrow> Some content
      | None \<Rightarrow> first_content soup selectors)"

definition select_main_content :: "node \<Rightarrow> node" where
  "select_main_content soup =
     (case first_content soup CONTENT_SELECTORS of
        Some main_content \<Rightarrow> main_content
      | None \<Rightarrow>
          (case find_tag ''body'' soup of
             Some body \<Rightarrow> body
           | None \<Rightarrow> soup))"

text \<open>Lines 195 to 198: the title of the page.\<close>

definition page_title :: "node \<Rightarrow> string" where
  "page_title soup =
     (case find_tag ''title'' soup of
        None \<Rightarrow> ''Untitled Page''
      | Some t \<Rightarrow> (case tag_string t of None \<Rightarrow> ''Untitled Page'' | Some s \<Rightarrow> s))"

text \<open>Lines 201 to 210: the path of the Markdown file, from the title and the time.\<close>

definition output_path :: "string \<Rightarrow> string \<Rightarrow> string \<Rightarrow> string" where
  "output_path title timestamp save_dir =
     (let sanitized_title = sanitize_filename (Some title);
          sanitized_title = (if sanitized_title = [] then ''untitled_page'' else sanitized_title);
          output_file = sanitized_title @ ''_'' @ timestamp @ ''.md''
      in path_join save_dir output_file)"

text \<open>
  The body of the \<^verbatim>\<open>try\<close> block. The page is requested without \<^verbatim>\<open>stream=True\<close>, so a
  connection that breaks in the body raises inside \<^verbatim>\<open>requests.get\<close>.
\<close>

definition fetch_and_convert_try ::
  "lib \<Rightarrow> world \<Rightarrow> string \<Rightarrow> string \<Rightarrow> string option
     \<Rightarrow> (exn + string option \<times> string option \<times> string option) \<times> world" where
  "fetch_and_convert_try L w url save_dir img_folder_arg =
     (if mkdir_fails w save_dir then (Inl OSError, w)
      else
       (let img_folder = (case img_folder_arg of
                            None \<Rightarrow> path_join save_dir ''images''
                          | Some f \<Rightarrow> f)
        in if mkdir_fails w img_folder then (Inl OSError, w)
           else
            (case requests_get w url of
               (Raises e, w1) \<Rightarrow> (Inl e, w1)
             | (Response status_code content (Some k), w1) \<Rightarrow> (Inl RequestException, w1)
             | (Response status_code content None, w1) \<Rightarrow>
                 if status_code \<noteq> 200 then (Inr (None, None, None), w1)
                 else
                  (let soup = parse_html L content;
                       title = page_title soup;
                       md_file_path = output_path title (now w1) save_dir
                   in case process_images L w1 soup url img_folder md_file_path of
                        (soup, w2) \<Rightarrow>
                          (let soup = decompose_noise soup;
                               main_content = select_main_content soup
                           in case markdownify L main_content of
                                Inl e \<Rightarrow> (Inl e, w2)
                              | Inr markdown_content \<Rightarrow>
                                  (case replace_md_image_urls L w2 markdown_content url
                                          img_folder md_file_path of
                                     (markdown_content, w3) \<Rightarrow>
                                       (Inr (Some (''# '' @ title @ [CHR 0x0A, CHR 0x0A]
                                                   @ markdown_content),
                                             Some title, Some md_file_path), w3)))))))"

text \<open>The whole function: an exception gives \<^verbatim>\<open>(None, "Error_Page", None)\<close>.\<close>

definition fetch_and_convert_to_markdown ::
  "lib \<Rightarrow> world \<Rightarrow> string \<Rightarrow> string \<Rightarrow> string option
     \<Rightarrow> (string option \<times> string option \<times> string option) \<times> world" where
  "fetch_and_convert_to_markdown L w url save_dir img_folder_arg =
     (case fetch_and_convert_try L w url save_dir img_folder_arg of
        (Inl e, w') \<Rightarrow> ((None, Some ''Error_Page'', None), w')
      | (Inr result, w') \<Rightarrow> (result, w'))"

subsection \<open>Notions of the specification\<close>

text \<open>
  The URLs \<^verbatim>\<open>process_images\<close> hands to \<^verbatim>\<open>download_image\<close>: for each \<^verbatim>\<open>img\<close> tag in
  document order its \<^verbatim>\<open>src\<close>, when it has one that is not empty and no data URI.
\<close>

fun img_source :: "node \<Rightarrow> string list" where
  "img_source (NavigableString s) = []"
| "img_source (Tag name attrs contents) =
     (case map_of attrs ''src'' of
        None \<Rightarrow> []
      | Some src \<Rightarrow> if src = [] \<or> startswith src ''data:'' then [] else [src])"

definition image_sources :: "node \<Rightarrow> string list" where
  "image_sources soup = concat (map img_source (find_all ''img'' soup))"

text \<open>A page without the \<^verbatim>\<open>src\<close> attributes of its \<^verbatim>\<open>img\<close> tags.\<close>

fun erase_src :: "node \<Rightarrow> node" where
  "erase_src (NavigableString s) = NavigableString s"
| "erase_src (Tag name attrs contents) =
     Tag name (if name = ''img'' then AList.delete ''src'' attrs else attrs)
       (map erase_src contents)"


subsection \<open>A library excerpt and states for the examples\<close>

text \<open>
  The examples run on an excerpt of the library: its values at the arguments they use.
  A URL with no entry in \<open>url_paths\<close> stands for one that \<^verbatim>\<open>urlparse\<close> rejects with
  \<^verbatim>\<open>ValueError\<close>, as it does \<^verbatim>\<open>http://[x/a.png\<close>, \<^verbatim>\<open>http://[x/a.gif\<close> and
  \<^verbatim>\<open>//[x/a.png\<close> for the bracket that is not closed.
\<close>

definition url_paths :: "(string \<times> string) list" where
  "url_paths =
     [(''http://x/p'', ''/p''),
      (''http://x/a.png'', ''/a.png''),
      (''http://x/b.jpg'', ''/b.jpg''),
      (''http://x/img.png'', ''/img.png''),
      (''http://x/img.svg'', ''/img.svg''),
      (''http://x/IMG.SVG'', ''/IMG.SVG''),
      (''data:image/png;base64,AAAA'', ''image/png;base64,AAAA'')]"

definition md5_values :: "(string \<times> string) list" where
  "md5_values =
     [(''http://x/a.png'', ''d4eaaf0e8567cb8ffc6ecf52cbf06662''),
      (''http://x/b.jpg'', ''33e8cef6b0ed4c7247ca0022f3de8297''),
      (''http://x/img.png'', ''c991bab93342448040934dcf04ab7c08''),
      (''data:image/png;base64,AAAA'', ''74a2f0f667739cfd62a284688a75dcfd'')]"

text \<open>
  The page of the examples, \<^verbatim>\<open><nav><img src=http://x/a.png></nav><p>hi</p>\<close>, as the
  parser reads it, and what is left of it without the \<^verbatim>\<open>nav\<close>.
\<close>

definition page1 :: string where
  "page1 = ''<nav><img src=http://x/a.png></nav><p>hi</p>''"

definition nav1 :: node where
  "nav1 = Tag ''nav'' [] [Tag ''img'' [(''src'', ''http://x/a.png'')] []]"

definition soup1 :: node where
  "soup1 = Tag ''[document]'' [] [nav1, Tag ''p'' [] [NavigableString ''hi'']]"

definition lib0 :: lib where
  "lib0 = \<lparr>
     urljoin = (\<lambda>base url.
        if base = ''http://x/p'' \<and> url = ''/a.png'' then Inr ''http://x/a.png''
        else if base = ''http://x/p'' \<and> url = ''data:image/png;base64,AAAA'' then Inr url
        else Inl ValueError),
     urlparse_path = (\<lambda>url.
        case map_of url_paths url of Some p \<Rightarrow> Inr p | None \<Rightarrow> Inl ValueError),
     md5_hexdigest = (\<lambda>s. case map_of md5_values s of Some h \<Rightarrow> h | None \<Rightarrow> []),
     relpath = (\<lambda>path start.
        if startswith path (start @ ''/'') then drop (length start + 1) path else path),
     parse_html = (\<lambda>content. if content = page1 then soup1 else Tag ''[document]'' [] []),
     markdownify = (\<lambda>n.
        if n = Tag ''[document]'' [] [Tag ''p'' [] [NavigableString ''hi'']]
        then Inr (''hi'' @ [CHR 0x0A, CHR 0x0A]) else Inr [])
   \<rparr>"

text \<open>
  A state with an empty disk, where \<^verbatim>\<open>http://x/p\<close> serves the page and
  \<^verbatim>\<open>http://x/a.png\<close> an image, every other HTTP URL answers 404, and \<^verbatim>\<open>requests\<close>
  refuses what is not HTTP. Then the same with the image on disk, with a disk that
  refuses directories, with one that refuses files, with a network that is down, that
  breaks in the body, and that answers 204 to everything.
\<close>

definition world0 :: world where
  "world0 = \<lparr>
     files = Map.empty,
     mkdir_fails = (\<lambda>d. False),
     open_fails = (\<lambda>p. False),
     net = (\<lambda>k url.
        if url = ''http://x/p'' then Response 200 page1 None
        else if url = ''http://x/a.png'' then Response 200 ''PNG'' None
        else if startswith url ''http'' then Response 404 [] None
        else Raises RequestException),
     requests = [],
     now = ''20240101_120000''
   \<rparr>"

definition world_cached :: world where
  "world_cached = world0\<lparr>files :=
     [''out/images/74a2f0f667739cfd62a284688a75dcfd.jpg'' \<mapsto> ''JPG'']\<rparr>"

definition world_nodir :: world where
  "world_nodir = world0\<lparr>mkdir_fails := (\<lambda>d. True)\<rparr>"

definition world_nofile :: world where
  "world_nofile = world0\<lparr>open_fails := (\<lambda>p. True)\<rparr>"

definition world_down :: world where
  "world_down = world0\<lparr>net := (\<lambda>k url. Raises RequestException)\<rparr>"

definition world_broken :: world where
  "world_broken = world0\<lparr>net := (\<lambda>k url. Response 200 ''PNG'' (Some 1))\<rparr>"

definition world_204 :: world where
  "world_204 = world0\<lparr>net := (\<lambda>k url. Response 204 [] None)\<rparr>"

text \<open>
  Two more pages: one with a \<^verbatim>\<open>main\<close> tag behind a tag of class \<^verbatim>\<open>content\<close>, and one
  with a body and nothing the selectors match.
\<close>

definition soup_main :: node where
  "soup_main = Tag ''[document]'' []
     [Tag ''body'' []
        [Tag ''div'' [(''class'', ''wide content'')] [NavigableString ''a''],
         Tag ''main'' [] [NavigableString ''b'']]]"

definition soup_body :: node where
  "soup_body = Tag ''[document]'' [] [Tag ''body'' [] [Tag ''p'' [] [NavigableString ''hi'']]]"

section \<open>Properties\<close>

subsection \<open>The file name sanitizer\<close>

lemma set_strip: "set (strip s) \<subseteq> set s"
proof -
  have "set (strip s) = set (dropWhile isspace (rev (dropWhile isspace s)))"
    by (simp add: strip_def)
  also have "\<dots> \<subseteq> set (rev (dropWhile isspace s))"
    by (rule set_dropWhileD [THEN subsetI])
  also have "\<dots> \<subseteq> set s"
    using set_dropWhileD by fastforce
  finally show ?thesis .
qed

lemma length_strip: "length (strip s) \<le> length s"
proof -
  have "length (strip s) = length (dropWhile isspace (rev (dropWhile isspace s)))"
    by (simp add: strip_def)
  also have "\<dots> \<le> length (rev (dropWhile isspace s))"
    by (rule length_dropWhile_le)
  also have "\<dots> \<le> length s"
    by (simp add: length_dropWhile_le)
  finally show ?thesis .
qed

lemma set_sub_spaces: "set (sub_spaces s) \<subseteq> insert (CHR '' '') (set s)"
  by (induction s rule: sub_spaces.induct) auto

lemma set_sub_invalid: "set (sub_invalid s) \<inter> invalid_chars = {}"
  by (auto simp: sub_invalid_def invalid_chars_def)

lemma space_valid: "CHR '' '' \<notin> invalid_chars"
  by (simp add: invalid_chars_def)

lemma dots_valid: "set ''...'' \<inter> invalid_chars = {}"
  by (simp add: invalid_chars_def)

lemma untitled_valid: "set ''untitled'' \<inter> invalid_chars = {}"
  by (simp add: invalid_chars_def)

lemma sanitize_steps_valid: "set (sanitize_steps name) \<inter> invalid_chars = {}"
proof -
  define s where "s = sub_spaces (sub_invalid (replace_breaks name))"
  have s: "set s \<inter> invalid_chars = {}"
    using set_sub_spaces [of "sub_invalid (replace_breaks name)"]
      set_sub_invalid [of "replace_breaks name"] space_valid
    unfolding s_def by blast
  have "set (take 97 s) \<subseteq> set s"
    by (rule set_take_subset)
  with s dots_valid have "set (if length s > 100 then take 97 s @ ''...'' else s) \<inter> invalid_chars = {}"
    by (cases "length s > 100") auto
  with set_strip [of "if length s > 100 then take 97 s @ ''...'' else s"]
  show ?thesis
    unfolding sanitize_steps_def Let_def s_def [symmetric] by blast
qed

lemma sanitize_steps_length: "length (sanitize_steps name) \<le> 100"
proof -
  define s where "s = sub_spaces (sub_invalid (replace_breaks name))"
  have "length (if length s > 100 then take 97 s @ ''...'' else s) \<le> 100"
    by simp
  with length_strip [of "if length s > 100 then take 97 s @ ''...'' else s"]
  show ?thesis
    unfolding sanitize_steps_def Let_def s_def [symmetric] by linarith
qed

lemma sanitize_filename_steps:
  "sanitize_filename (Some name) =
     (if sanitize_steps name = [] then ''untitled'' else sanitize_steps name)"
  by (simp add: sanitize_filename_def sanitize_steps_def Let_def)

text \<open>
  Claim C6. \<^verbatim>\<open>sanitize_filename\<close> is total: for every input, \<^verbatim>\<open>None\<close> included, the
  result is a non-empty string of at most 100 characters with none of the characters
  \<^verbatim>\<open>\ / * ? : " < > |\<close>; \<^verbatim>\<open>None\<close> gives \<^verbatim>\<open>"untitled"\<close>, and so does an input that
  the steps leave empty.
\<close>

theorem sanitize_filename_total:
  "sanitize_filename x \<noteq> []
   \<and> length (sanitize_filename x) \<le> 100
   \<and> set (sanitize_filename x) \<inter> invalid_chars = {}
   \<and> sanitize_filename None = ''untitled''
   \<and> (sanitize_steps name = [] \<longrightarrow> sanitize_filename (Some name) = ''untitled'')"
proof (intro conjI)
  show "sanitize_filename x \<noteq> []"
  proof (cases x)
    case None
    then show ?thesis by (simp add: sanitize_filename_def)
  next
    case (Some n)
    then show ?thesis by (simp add: sanitize_filename_steps)
  qed
  show "length (sanitize_filename x) \<le> 100"
  proof (cases x)
    case None
    then show ?thesis by (simp add: sanitize_filename_def)
  next
    case (Some n)
    then show ?thesis
      using sanitize_steps_length [of n] by (simp add: sanitize_filename_steps)
  qed
  show "set (sanitize_filename x) \<inter> invalid_chars = {}"
  proof (cases x)
    case None
    then show ?thesis
      using untitled_valid by (simp add: sanitize_filename_def)
  next
    case (Some n)
    then show ?thesis
      using sanitize_steps_valid [of n] untitled_valid
      by (simp add: sanitize_filename_steps)
  qed
  show "sanitize_filename None = ''untitled''"
    by (simp add: sanitize_filename_def)
  show "sanitize_steps name = [] \<longrightarrow> sanitize_filename (Some name) = ''untitled''"
    by (simp add: sanitize_filename_steps)
qed

theorem sanitize_filename_total_witness:
  "sanitize_steps ''  '' = []
   \<and> sanitize_filename (Some ''  '') = ''untitled''
   \<and> sanitize_filename (Some ''a/b:c'') = ''a_b_c''"
proof -
  have e: "sanitize_steps ''  '' = []"
    by (simp add: sanitize_steps_def replace_breaks_def sub_invalid_def invalid_chars_def
        isspace_def strip_def)
  have "sanitize_filename (Some ''a/b:c'') = ''a_b_c''"
    by (simp add: sanitize_filename_def replace_breaks_def sub_invalid_def invalid_chars_def
        isspace_def strip_def)
  with e sanitize_filename_total [of "Some ''  ''" "''  ''"] show ?thesis
    by simp
qed

subsection \<open>The image policy filter and the image localizer\<close>

lemma local_file_name_eq:
  "md5_hexdigest L url @
     (if snd (splitext path) = [] \<or> length (snd (splitext path)) > 5 then ''.jpg''
      else snd (splitext path)) = local_file_name L url path"
  by (simp add: local_file_name_def)

lemma download_image_try_accepted:
  assumes "resolve_url L img_url base_url = Inr url"
    and "should_download_image L url = Inr True"
    and "urlparse_path L url = Inr path"
    and "p = path_join img_folder (local_file_name L url path)"
  shows "download_image_try L w img_url base_url img_folder =
     (if mkdir_fails w (dirname p) then (Inl OSError, w)
      else if files w p = None then
        (case net w (length (requests w)) url of
           Raises e \<Rightarrow> (Inl e, w\<lparr>requests := requests w @ [url]\<rparr>)
         | Response status_code content broken \<Rightarrow>
             if status_code = 200 then
               (if open_fails w p then (Inl OSError, w\<lparr>requests := requests w @ [url]\<rparr>)
                else (case broken of
                        None \<Rightarrow> (Inr (Some p),
                          w\<lparr>requests := requests w @ [url], files := (files w)(p \<mapsto> content)\<rparr>)
                      | Some k \<Rightarrow> (Inl RequestException,
                          w\<lparr>requests := requests w @ [url],
                            files := (files w)(p \<mapsto> take k content)\<rparr>)))
             else (Inr None, w\<lparr>requests := requests w @ [url]\<rparr>))
      else (Inr (Some p), w))"
  unfolding download_image_try_def assms(1) assms(2) assms(3) sum.case bool.case 
    Let_def local_file_name_eq assms(4) [symmetric] requests_get_def
  by (simp split: http_result.split option.split)


lemma should_download_image_parsed:
  "should_download_image L url = Inr b \<Longrightarrow> \<exists>path. urlparse_path L url = Inr path"
  by (cases "urlparse_path L url") (simp_all add: should_download_image_def)

lemma download_image_try_resolve:
  "resolve_url L img_url base_url = Inl e \<Longrightarrow>
   download_image_try L w img_url base_url img_folder = (Inl e, w)"
  by (simp add: download_image_try_def)

lemma download_image_try_filter:
  "resolve_url L img_url base_url = Inr url \<Longrightarrow> should_download_image L url = Inl e \<Longrightarrow>
   download_image_try L w img_url base_url img_folder = (Inl e, w)"
  by (simp add: download_image_try_def)

lemma download_image_try_rejected:
  "resolve_url L img_url base_url = Inr url \<Longrightarrow> should_download_image L url = Inr False \<Longrightarrow>
   download_image_try L w img_url base_url img_folder = (Inr None, w)"
  by (simp add: download_image_try_def)

lemma download_image_SomeD:
  assumes "download_image L w img_url base_url img_folder = (Some p, w')"
  shows "\<exists>url path.
           resolve_url L img_url base_url = Inr url
         \<and> should_download_image L url = Inr True
         \<and> urlparse_path L url = Inr path
         \<and> p = path_join img_folder (local_file_name L url path)
         \<and> \<not> mkdir_fails w (dirname p)
         \<and> (files w p \<noteq> None \<and> w' = w
            \<or> files w p = None \<and> \<not> open_fails w p
              \<and> (\<exists>content. net w (length (requests w)) url = Response 200 content None
                    \<and> w' = w\<lparr>requests := requests w @ [url],
                               files := (files w)(p \<mapsto> content)\<rparr>))"
proof (cases "resolve_url L img_url base_url")
  case (Inl e)
  with assms show ?thesis
    by (simp add: download_image_def download_image_try_resolve)
next
  case (Inr url)
  note r = this
  show ?thesis
  proof (cases "should_download_image L url")
    case (Inl e)
    with assms r show ?thesis
      by (simp add: download_image_def download_image_try_filter)
  next
    case (Inr b)
    show ?thesis
    proof (cases b)
      case False
      with assms r Inr show ?thesis
        by (simp add: download_image_def download_image_try_rejected)
    next
      case True
      with Inr have s: "should_download_image L url = Inr True"
        by simp
      then obtain path where u: "urlparse_path L url = Inr path"
        using should_download_image_parsed by blast
      define q where "q = path_join img_folder (local_file_name L url path)"
      note eq = download_image_try_accepted [OF r s u q_def, of w]
      from assms have
        "(files w q \<noteq> None \<and> w' = w
            \<or> files w q = None \<and> \<not> open_fails w q
              \<and> (\<exists>content. net w (length (requests w)) url = Response 200 content None
                    \<and> w' = w\<lparr>requests := requests w @ [url],
                               files := (files w)(q \<mapsto> content)\<rparr>))
         \<and> p = q \<and> \<not> mkdir_fails w (dirname q)"
        unfolding download_image_def eq
        by (auto split: if_splits http_result.splits option.splits)
      with r s u q_def show ?thesis
        by blast
    qed
  qed
qed

lemma download_image_cached:
  assumes "resolve_url L img_url base_url = Inr url"
    and "should_download_image L url = Inr True"
    and "urlparse_path L url = Inr path"
    and "p = path_join img_folder (local_file_name L url path)"
    and "\<not> mkdir_fails w (dirname p)"
    and "files w p \<noteq> None"
  shows "download_image L w img_url base_url img_folder = (Some p, w)"
  unfolding download_image_def download_image_try_accepted [OF assms(1-4)]
  using assms(5,6) by auto

lemma download_image_caught:
  "fst (download_image_try L w img_url base_url img_folder) = Inl e \<Longrightarrow>
   download_image L w img_url base_url img_folder =
     (None, snd (download_image_try L w img_url base_url img_folder))"
  by (cases "download_image_try L w img_url base_url img_folder") (auto simp: download_image_def)


lemmas example_defs = lib0_def world0_def url_paths_def md5_values_def

lemmas localizer_defs = download_image_def download_image_try_def resolve_url_def
  should_download_image_def IGNORED_EXTENSIONS_def requests_get_def local_file_name_def
  startswith_def endswith_def lower_def lower_char_def splitext_def rfind_def path_join_def
  dirname_def Let_def

text \<open>
  Claim C5, amended. On a URL that \<^verbatim>\<open>urlparse\<close> accepts, \<^verbatim>\<open>should_download_image\<close>
  rejects exactly when the lower-cased path of the parsed URL ends with one of
  \<^verbatim>\<open>.ico .webp .svg .gif .bmp .tiff\<close>, and accepts otherwise; on a URL that \<^verbatim>\<open>urlparse\<close>
  refuses it raises the \<^verbatim>\<open>ValueError\<close> of \<^verbatim>\<open>urlparse\<close>. Lower-casing maps the capital
  letters to the small ones. The function takes no state and returns none: but for its
  \<^verbatim>\<open>print\<close> it has no effect.
\<close>

theorem should_download_image_iff:
  "(urlparse_path L img_url = Inr path \<longrightarrow>
      should_download_image L img_url =
        Inr (\<not> list_ex (endswith (lower path))
               [''.ico'', ''.webp'', ''.svg'', ''.gif'', ''.bmp'', ''.tiff'']))
   \<and> (urlparse_path L img_url = Inl e \<longrightarrow> should_download_image L img_url = Inl e)
   \<and> lower ''ABCDEFGHIJKLMNOPQRSTUVWXYZ'' = ''abcdefghijklmnopqrstuvwxyz''
   \<and> lower ''abcdefghijklmnopqrstuvwxyz./0123456789'' = ''abcdefghijklmnopqrstuvwxyz./0123456789''"
proof (intro conjI impI)
  assume "urlparse_path L img_url = Inr path"
  then show "should_download_image L img_url =
        Inr (\<not> list_ex (endswith (lower path))
               [''.ico'', ''.webp'', ''.svg'', ''.gif'', ''.bmp'', ''.tiff''])"
    by (simp add: should_download_image_def IGNORED_EXTENSIONS_def)
next
  assume "urlparse_path L img_url = Inl e"
  then show "should_download_image L img_url = Inl e"
    by (simp add: should_download_image_def)
next
  show "lower ''ABCDEFGHIJKLMNOPQRSTUVWXYZ'' = ''abcdefghijklmnopqrstuvwxyz''"
    by (simp add: lower_def lower_char_def char_of_def bit_0)
next
  show "lower ''abcdefghijklmnopqrstuvwxyz./0123456789'' =
      ''abcdefghijklmnopqrstuvwxyz./0123456789''"
    by (simp add: lower_def lower_char_def)
qed

theorem should_download_image_iff_witness:
  "should_download_image lib0 ''http://x/img.svg'' = Inr False
   \<and> should_download_image lib0 ''http://x/IMG.SVG'' = Inr False
   \<and> should_download_image lib0 ''http://x/img.png'' = Inr True
   \<and> should_download_image lib0 ''http://[x/a.gif'' = Inl ValueError"
proof -
  have a: "urlparse_path lib0 ''http://x/img.svg'' = Inr ''/img.svg''"
    and b: "urlparse_path lib0 ''http://x/IMG.SVG'' = Inr ''/IMG.SVG''"
    and c: "urlparse_path lib0 ''http://x/img.png'' = Inr ''/img.png''"
    and d: "urlparse_path lib0 ''http://[x/a.gif'' = Inl ValueError"
    by (simp_all add: lib0_def url_paths_def)
  from a should_download_image_iff [of lib0 "''http://x/img.svg''" "''/img.svg''"]
  have 1: "should_download_image lib0 ''http://x/img.svg'' = Inr False"
    by (simp add: endswith_def lower_def lower_char_def char_of_def bit_0)
  from b should_download_image_iff [of lib0 "''http://x/IMG.SVG''" "''/IMG.SVG''"]
  have 2: "should_download_image lib0 ''http://x/IMG.SVG'' = Inr False"
    by (simp add: endswith_def lower_def lower_char_def char_of_def bit_0)
  from c should_download_image_iff [of lib0 "''http://x/img.png''" "''/img.png''"]
  have 3: "should_download_image lib0 ''http://x/img.png'' = Inr True"
    by (simp add: endswith_def lower_def lower_char_def char_of_def bit_0)
  from d should_download_image_iff [of lib0 "''http://[x/a.gif''" _ ValueError]
  have 4: "should_download_image lib0 ''http://[x/a.gif'' = Inl ValueError"
    by blast
  from 1 2 3 4 show ?thesis by blast
qed

text \<open>
  Claim C5 as stated fails on a URL that \<^verbatim>\<open>urlparse\<close> refuses: the call neither rejects
  nor accepts it, it raises.
\<close>

theorem should_download_image_counterexample:
  "should_download_image lib0 ''http://[x/a.gif'' \<noteq> Inr False
   \<and> should_download_image lib0 ''http://[x/a.gif'' \<noteq> Inr True
   \<and> should_download_image lib0 ''http://[x/a.gif'' = Inl ValueError"
  by (simp add: should_download_image_def lib0_def url_paths_def)

text \<open>
  Claim C4. The path \<^verbatim>\<open>download_image\<close> returns is the image folder joined with the
  MD5 hash of the resolved URL followed by the extension of the URL's path, when there
  is one of at most 5 characters, and by \<^verbatim>\<open>.jpg\<close> otherwise: a function of the resolved
  URL alone. The file is there when the call returns.
\<close>

theorem download_image_file_name:
  assumes "download_image L w img_url base_url img_folder = (Some p, w')"
  shows "\<exists>url path. resolve_url L img_url base_url = Inr url
           \<and> urlparse_path L url = Inr path
           \<and> p = path_join img_folder (local_file_name L url path)
           \<and> files w' p \<noteq> None"
  using download_image_SomeD [OF assms] by auto

lemma example_download:
  "fst (download_image lib0 world0 ''/a.png'' ''http://x/p'' ''out/images'') =
     Some ''out/images/d4eaaf0e8567cb8ffc6ecf52cbf06662.png''"
  by (simp add: localizer_defs example_defs)

theorem download_image_file_name_witness:
  "\<exists>url path. resolve_url lib0 ''/a.png'' ''http://x/p'' = Inr url
     \<and> urlparse_path lib0 url = Inr path
     \<and> ''out/images/d4eaaf0e8567cb8ffc6ecf52cbf06662.png'' =
         path_join ''out/images'' (local_file_name lib0 url path)
     \<and> files (snd (download_image lib0 world0 ''/a.png'' ''http://x/p'' ''out/images''))
         ''out/images/d4eaaf0e8567cb8ffc6ecf52cbf06662.png'' \<noteq> None"
proof -
  have "download_image lib0 world0 ''/a.png'' ''http://x/p'' ''out/images'' =
      (Some ''out/images/d4eaaf0e8567cb8ffc6ecf52cbf06662.png'',
       snd (download_image lib0 world0 ''/a.png'' ''http://x/p'' ''out/images''))"
    using example_download by (simp add: prod_eq_iff)
  from download_image_file_name [OF this] show ?thesis .
qed

text \<open>
  Claim C3, amended. When a call of \<^verbatim>\<open>download_image\<close> returns a path, a second call
  with the same arguments returns the same path and leaves the state as it is, so it
  requests nothing; the first call made one request when the file was not on disk, and
  none when it was. When the first call's request is answered with a status other than
  200, the call returns \<^verbatim>\<open>None\<close> and writes no file, and the second call requests the
  image again.
\<close>

theorem download_image_second_call:
  "(download_image L w img_url base_url img_folder = (Some p, w')
      \<and> resolve_url L img_url base_url = Inr url \<longrightarrow>
      download_image L w' img_url base_url img_folder = (Some p, w')
      \<and> requests w' = (if files w p = None then requests w @ [url] else requests w))
   \<and> (resolve_url L img_url base_url = Inr url \<and> should_download_image L url = Inr True
      \<and> urlparse_path L url = Inr path
      \<and> q = path_join img_folder (local_file_name L url path)
      \<and> \<not> mkdir_fails w (dirname q) \<and> files w q = None
      \<and> net w (length (requests w)) url = Response status_code content broken
      \<and> status_code \<noteq> 200 \<longrightarrow>
      download_image L w img_url base_url img_folder =
        (None, w\<lparr>requests := requests w @ [url]\<rparr>)
      \<and> requests (snd (download_image L (w\<lparr>requests := requests w @ [url]\<rparr>) img_url base_url
            img_folder)) = requests w @ [url, url])"
proof (intro conjI impI)
  assume a: "download_image L w img_url base_url img_folder = (Some p, w')
      \<and> resolve_url L img_url base_url = Inr url"
  from download_image_SomeD [of L w img_url base_url img_folder p w'] a obtain path where
    s: "should_download_image L url = Inr True"
    and u: "urlparse_path L url = Inr path"
    and p: "p = path_join img_folder (local_file_name L url path)"
    and m: "\<not> mkdir_fails w (dirname p)"
    and c: "files w p \<noteq> None \<and> w' = w
            \<or> files w p = None \<and> \<not> open_fails w p
              \<and> (\<exists>content. net w (length (requests w)) url = Response 200 content None
                    \<and> w' = w\<lparr>requests := requests w @ [url],
                               files := (files w)(p \<mapsto> content)\<rparr>)"
    by auto
  from a have r: "resolve_url L img_url base_url = Inr url"
    by simp
  from c have m': "\<not> mkdir_fails w' (dirname p)" and f': "files w' p \<noteq> None"
    using m by auto
  show "download_image L w' img_url base_url img_folder = (Some p, w')"
    by (rule download_image_cached [OF r s u p m' f'])
  from c show "requests w' = (if files w p = None then requests w @ [url] else requests w)"
    by auto
next
  assume b: "resolve_url L img_url base_url = Inr url \<and> should_download_image L url = Inr True
      \<and> urlparse_path L url = Inr path
      \<and> q = path_join img_folder (local_file_name L url path)
      \<and> \<not> mkdir_fails w (dirname q) \<and> files w q = None
      \<and> net w (length (requests w)) url = Response status_code content broken
      \<and> status_code \<noteq> 200"
  then have r: "resolve_url L img_url base_url = Inr url"
    and s: "should_download_image L url = Inr True"
    and u: "urlparse_path L url = Inr path"
    and q: "q = path_join img_folder (local_file_name L url path)"
    by simp_all
  from b have m: "\<not> mkdir_fails w (dirname q)" and f: "files w q = None"
    and n: "net w (length (requests w)) url = Response status_code content broken"
    and st: "status_code \<noteq> 200"
    by blast+
  note eq = download_image_try_accepted [OF r s u q]
  from m f n st show "download_image L w img_url base_url img_folder =
        (None, w\<lparr>requests := requests w @ [url]\<rparr>)"
    unfolding download_image_def eq by simp
  from m f show "requests (snd (download_image L (w\<lparr>requests := requests w @ [url]\<rparr>) img_url
      base_url img_folder)) = requests w @ [url, url]"
    unfolding download_image_def eq by (simp split: http_result.split option.split)
qed

theorem download_image_second_call_witness:
  "download_image lib0 (snd (download_image lib0 world0 ''/a.png'' ''http://x/p'' ''out/images''))
       ''/a.png'' ''http://x/p'' ''out/images'' =
     (Some ''out/images/d4eaaf0e8567cb8ffc6ecf52cbf06662.png'',
      snd (download_image lib0 world0 ''/a.png'' ''http://x/p'' ''out/images''))
   \<and> requests (snd (download_image lib0 world0 ''/a.png'' ''http://x/p'' ''out/images'')) =
       [''http://x/a.png'']
   \<and> fst (download_image lib0 world0 ''http://x/b.jpg'' ''http://x/p'' ''out/images'') = None
   \<and> requests (snd (download_image lib0
         (world0\<lparr>requests := requests world0 @ [''http://x/b.jpg'']\<rparr>)
         ''http://x/b.jpg'' ''http://x/p'' ''out/images'')) =
       [''http://x/b.jpg'', ''http://x/b.jpg'']"
proof -
  have a: "download_image lib0 world0 ''/a.png'' ''http://x/p'' ''out/images'' =
      (Some ''out/images/d4eaaf0e8567cb8ffc6ecf52cbf06662.png'',
       snd (download_image lib0 world0 ''/a.png'' ''http://x/p'' ''out/images''))
      \<and> resolve_url lib0 ''/a.png'' ''http://x/p'' = Inr ''http://x/a.png''"
    using example_download by (simp add: prod_eq_iff resolve_url_def startswith_def lib0_def)
  have c: "files world0 ''out/images/d4eaaf0e8567cb8ffc6ecf52cbf06662.png'' = None"
    and d: "requests world0 = []"
    by (simp_all add: world0_def)
  from a download_image_second_call [where L = lib0 and w = world0 and img_url = "''/a.png''"
      and base_url = "''http://x/p''" and img_folder = "''out/images''"
      and p = "''out/images/d4eaaf0e8567cb8ffc6ecf52cbf06662.png''"
      and w' = "snd (download_image lib0 world0 ''/a.png'' ''http://x/p'' ''out/images'')"
      and url = "''http://x/a.png''"]
  have 1: "download_image lib0
        (snd (download_image lib0 world0 ''/a.png'' ''http://x/p'' ''out/images''))
        ''/a.png'' ''http://x/p'' ''out/images'' =
      (Some ''out/images/d4eaaf0e8567cb8ffc6ecf52cbf06662.png'',
       snd (download_image lib0 world0 ''/a.png'' ''http://x/p'' ''out/images''))
      \<and> requests (snd (download_image lib0 world0 ''/a.png'' ''http://x/p'' ''out/images'')) =
        (if files world0 ''out/images/d4eaaf0e8567cb8ffc6ecf52cbf06662.png'' = None
         then requests world0 @ [''http://x/a.png''] else requests world0)"
    by blast
  have b: "resolve_url lib0 ''http://x/b.jpg'' ''http://x/p'' = Inr ''http://x/b.jpg''
      \<and> should_download_image lib0 ''http://x/b.jpg'' = Inr True
      \<and> urlparse_path lib0 ''http://x/b.jpg'' = Inr ''/b.jpg''
      \<and> ''out/images/33e8cef6b0ed4c7247ca0022f3de8297.jpg'' =
          path_join ''out/images'' (local_file_name lib0 ''http://x/b.jpg'' ''/b.jpg'')
      \<and> \<not> mkdir_fails world0 (dirname ''out/images/33e8cef6b0ed4c7247ca0022f3de8297.jpg'')
      \<and> files world0 ''out/images/33e8cef6b0ed4c7247ca0022f3de8297.jpg'' = None
      \<and> net world0 (length (requests world0)) ''http://x/b.jpg'' = Response 404 [] None
      \<and> (404::int) \<noteq> 200"
    by (simp add: localizer_defs example_defs)
  from b download_image_second_call [where L = lib0 and w = world0
      and img_url = "''http://x/b.jpg''" and base_url = "''http://x/p''"
      and img_folder = "''out/images''" and url = "''http://x/b.jpg''" and path = "''/b.jpg''"
      and q = "''out/images/33e8cef6b0ed4c7247ca0022f3de8297.jpg''" and status_code = 404
      and content = "[]" and broken = None]
  have 2: "download_image lib0 world0 ''http://x/b.jpg'' ''http://x/p'' ''out/images'' =
        (None, world0\<lparr>requests := requests world0 @ [''http://x/b.jpg'']\<rparr>)
      \<and> requests (snd (download_image lib0
          (world0\<lparr>requests := requests world0 @ [''http://x/b.jpg'']\<rparr>)
          ''http://x/b.jpg'' ''http://x/p'' ''out/images'')) =
        requests world0 @ [''http://x/b.jpg'', ''http://x/b.jpg'']"
    by blast
  from 1 2 c d show ?thesis
    by simp
qed

text \<open>
  Claim C3 as stated fails where the image cannot be had: both calls return \<^verbatim>\<open>None\<close>,
  and each of them requests the image.
\<close>

theorem download_image_twice_counterexample:
  "fst (download_image lib0 world0 ''http://x/b.jpg'' ''http://x/p'' ''out/images'') = None
   \<and> fst (download_image lib0
           (snd (download_image lib0 world0 ''http://x/b.jpg'' ''http://x/p'' ''out/images''))
           ''http://x/b.jpg'' ''http://x/p'' ''out/images'') = None
   \<and> requests (snd (download_image lib0
           (snd (download_image lib0 world0 ''http://x/b.jpg'' ''http://x/p'' ''out/images''))
           ''http://x/b.jpg'' ''http://x/p'' ''out/images'')) =
       [''http://x/b.jpg'', ''http://x/b.jpg'']"
  by (simp add: localizer_defs example_defs)


text \<open>
  Claim C10. \<^verbatim>\<open>download_image\<close> never raises: whatever the \<^verbatim>\<open>try\<close> block raises, it
  returns \<^verbatim>\<open>None\<close>; so it does when resolving the URL raises, when parsing it raises,
  when the folder cannot be made, when the request raises, when the file cannot be
  opened and when the connection breaks while the file is written.
\<close>

theorem download_image_never_raises:
  "(fst (download_image_try L w img_url base_url img_folder) = Inl e \<longrightarrow>
      download_image L w img_url base_url img_folder =
        (None, snd (download_image_try L w img_url base_url img_folder)))
   \<and> (resolve_url L img_url base_url = Inl e \<longrightarrow>
      download_image L w img_url base_url img_folder = (None, w))
   \<and> (resolve_url L img_url base_url = Inr url \<and> should_download_image L url = Inl e \<longrightarrow>
      download_image L w img_url base_url img_folder = (None, w))
   \<and> (resolve_url L img_url base_url = Inr url \<and> should_download_image L url = Inr True
       \<and> urlparse_path L url = Inr path
       \<and> p = path_join img_folder (local_file_name L url path) \<longrightarrow>
        (mkdir_fails w (dirname p) \<longrightarrow>
           download_image L w img_url base_url img_folder = (None, w))
      \<and> (\<not> mkdir_fails w (dirname p) \<and> files w p = None
          \<and> net w (length (requests w)) url = Raises e \<longrightarrow>
           fst (download_image L w img_url base_url img_folder) = None)
      \<and> (\<not> mkdir_fails w (dirname p) \<and> files w p = None
          \<and> net w (length (requests w)) url = Response 200 content broken
          \<and> (open_fails w p \<or> broken \<noteq> None) \<longrightarrow>
           fst (download_image L w img_url base_url img_folder) = None))"
proof (intro conjI impI)
  assume "fst (download_image_try L w img_url base_url img_folder) = Inl e"
  then show "download_image L w img_url base_url img_folder =
      (None, snd (download_image_try L w img_url base_url img_folder))"
    by (rule download_image_caught)
next
  assume "resolve_url L img_url base_url = Inl e"
  then show "download_image L w img_url base_url img_folder = (None, w)"
    by (simp add: download_image_def download_image_try_resolve)
next
  assume "resolve_url L img_url base_url = Inr url \<and> should_download_image L url = Inl e"
  then show "download_image L w img_url base_url img_folder = (None, w)"
    by (simp add: download_image_def download_image_try_filter)
next
  assume a: "resolve_url L img_url base_url = Inr url \<and> should_download_image L url = Inr True
       \<and> urlparse_path L url = Inr path
       \<and> p = path_join img_folder (local_file_name L url path)"
  then have eq: "download_image_try L w img_url base_url img_folder =
     (if mkdir_fails w (dirname p) then (Inl OSError, w)
      else if files w p = None then
        (case net w (length (requests w)) url of
           Raises e \<Rightarrow> (Inl e, w\<lparr>requests := requests w @ [url]\<rparr>)
         | Response status_code content broken \<Rightarrow>
             if status_code = 200 then
               (if open_fails w p then (Inl OSError, w\<lparr>requests := requests w @ [url]\<rparr>)
                else (case broken of
                        None \<Rightarrow> (Inr (Some p),
                          w\<lparr>requests := requests w @ [url], files := (files w)(p \<mapsto> content)\<rparr>)
                      | Some k \<Rightarrow> (Inl RequestException,
                          w\<lparr>requests := requests w @ [url],
                            files := (files w)(p \<mapsto> take k content)\<rparr>)))
             else (Inr None, w\<lparr>requests := requests w @ [url]\<rparr>))
      else (Inr (Some p), w))"
    using download_image_try_accepted [of L img_url base_url url path p img_folder w] by blast
  {
    assume "mkdir_fails w (dirname p)"
    then show "download_image L w img_url base_url img_folder = (None, w)"
      unfolding download_image_def eq by simp
  }
  {
    assume "\<not> mkdir_fails w (dirname p) \<and> files w p = None
          \<and> net w (length (requests w)) url = Raises e"
    then show "fst (download_image L w img_url base_url img_folder) = None"
      unfolding download_image_def eq by simp
  }
  {
    assume "\<not> mkdir_fails w (dirname p) \<and> files w p = None
          \<and> net w (length (requests w)) url = Response 200 content broken
          \<and> (open_fails w p \<or> broken \<noteq> None)"
    then show "fst (download_image L w img_url base_url img_folder) = None"
      unfolding download_image_def eq by auto
  }
qed

lemma example_target:
  "resolve_url lib0 ''/a.png'' ''http://x/p'' = Inr ''http://x/a.png''
   \<and> should_download_image lib0 ''http://x/a.png'' = Inr True
   \<and> urlparse_path lib0 ''http://x/a.png'' = Inr ''/a.png''
   \<and> ''out/images/d4eaaf0e8567cb8ffc6ecf52cbf06662.png'' =
       path_join ''out/images'' (local_file_name lib0 ''http://x/a.png'' ''/a.png'')"
  by (simp add: localizer_defs example_defs)

theorem download_image_never_raises_witness:
  "download_image lib0 world0 ''//[x/a.png'' ''http://x/p'' ''out/images'' = (None, world0)
   \<and> download_image lib0 world0 ''http://[x/a.png'' ''http://x/p'' ''out/images'' = (None, world0)
   \<and> download_image lib0 world_nodir ''/a.png'' ''http://x/p'' ''out/images'' = (None, world_nodir)
   \<and> fst (download_image lib0 world_down ''/a.png'' ''http://x/p'' ''out/images'') = None
   \<and> fst (download_image lib0 world_nofile ''/a.png'' ''http://x/p'' ''out/images'') = None
   \<and> fst (download_image lib0 world_broken ''/a.png'' ''http://x/p'' ''out/images'') = None"
proof -
  have r: "resolve_url lib0 ''//[x/a.png'' ''http://x/p'' = Inl ValueError"
    by (simp add: resolve_url_def startswith_def lib0_def)
  have f: "resolve_url lib0 ''http://[x/a.png'' ''http://x/p'' = Inr ''http://[x/a.png''
      \<and> should_download_image lib0 ''http://[x/a.png'' = Inl ValueError"
    by (simp add: resolve_url_def startswith_def should_download_image_def lib0_def url_paths_def)
  have m: "mkdir_fails world_nodir (dirname ''out/images/d4eaaf0e8567cb8ffc6ecf52cbf06662.png'')"
    by (simp add: world_nodir_def)
  have d: "\<not> mkdir_fails world_down (dirname ''out/images/d4eaaf0e8567cb8ffc6ecf52cbf06662.png'')
      \<and> files world_down ''out/images/d4eaaf0e8567cb8ffc6ecf52cbf06662.png'' = None
      \<and> net world_down (length (requests world_down)) ''http://x/a.png'' = Raises RequestException"
    by (simp add: world_down_def world0_def)
  have n: "\<not> mkdir_fails world_nofile (dirname ''out/images/d4eaaf0e8567cb8ffc6ecf52cbf06662.png'')
      \<and> files world_nofile ''out/images/d4eaaf0e8567cb8ffc6ecf52cbf06662.png'' = None
      \<and> net world_nofile (length (requests world_nofile)) ''http://x/a.png'' =
          Response 200 ''PNG'' None
      \<and> (open_fails world_nofile ''out/images/d4eaaf0e8567cb8ffc6ecf52cbf06662.png''
          \<or> (None :: nat option) \<noteq> None)"
    by (simp add: world_nofile_def world0_def)
  have b: "\<not> mkdir_fails world_broken (dirname ''out/images/d4eaaf0e8567cb8ffc6ecf52cbf06662.png'')
      \<and> files world_broken ''out/images/d4eaaf0e8567cb8ffc6ecf52cbf06662.png'' = None
      \<and> net world_broken (length (requests world_broken)) ''http://x/a.png'' =
          Response 200 ''PNG'' (Some 1)
      \<and> (open_fails world_broken ''out/images/d4eaaf0e8567cb8ffc6ecf52cbf06662.png''
          \<or> Some (1::nat) \<noteq> None)"
    by (simp add: world_broken_def world0_def)
  note t = example_target
  from r download_image_never_raises
    [of lib0 world0 "''//[x/a.png''" "''http://x/p''" "''out/images''" ValueError]
  have 1: "download_image lib0 world0 ''//[x/a.png'' ''http://x/p'' ''out/images'' = (None, world0)"
    by blast
  from f download_image_never_raises
    [of lib0 world0 "''http://[x/a.png''" "''http://x/p''" "''out/images''" ValueError
      "''http://[x/a.png''"]
  have 2: "download_image lib0 world0 ''http://[x/a.png'' ''http://x/p'' ''out/images'' =
      (None, world0)"
    by blast
  from t m download_image_never_raises
    [of lib0 world_nodir "''/a.png''" "''http://x/p''" "''out/images''" _ "''http://x/a.png''"
      "''/a.png''" "''out/images/d4eaaf0e8567cb8ffc6ecf52cbf06662.png''"]
  have 3: "download_image lib0 world_nodir ''/a.png'' ''http://x/p'' ''out/images'' =
      (None, world_nodir)"
    by blast
  from t d download_image_never_raises
    [of lib0 world_down "''/a.png''" "''http://x/p''" "''out/images''" RequestException
      "''http://x/a.png''" "''/a.png''" "''out/images/d4eaaf0e8567cb8ffc6ecf52cbf06662.png''"]
  have 4: "fst (download_image lib0 world_down ''/a.png'' ''http://x/p'' ''out/images'') = None"
    by blast
  from t n download_image_never_raises
    [of lib0 world_nofile "''/a.png''" "''http://x/p''" "''out/images''" _
      "''http://x/a.png''" "''/a.png''" "''out/images/d4eaaf0e8567cb8ffc6ecf52cbf06662.png''"
      "''PNG''" None]
  have 5: "fst (download_image lib0 world_nofile ''/a.png'' ''http://x/p'' ''out/images'') = None"
    by blast
  from t b download_image_never_raises
    [of lib0 world_broken "''/a.png''" "''http://x/p''" "''out/images''" _
      "''http://x/a.png''" "''/a.png''" "''out/images/d4eaaf0e8567cb8ffc6ecf52cbf06662.png''"
      "''PNG''" "Some 1"]
  have 6: "fst (download_image lib0 world_broken ''/a.png'' ''http://x/p'' ''out/images'') = None"
    by blast
  from 1 2 3 4 5 6 show ?thesis by blast
qed

text \<open>
  Claim C7 as stated fails: \<^verbatim>\<open>download_image\<close> has no test for data URIs. Given one, it
  returns the path of the file when a file of the computed name is on disk, and it calls
  \<^verbatim>\<open>requests.get\<close> on the data URI when none is.
\<close>

theorem download_image_data_uri_counterexample:
  "fst (download_image lib0 world_cached ''data:image/png;base64,AAAA'' ''http://x/p''
          ''out/images'') = Some ''out/images/74a2f0f667739cfd62a284688a75dcfd.jpg''
   \<and> requests (snd (download_image lib0 world0 ''data:image/png;base64,AAAA'' ''http://x/p''
          ''out/images'')) = [''data:image/png;base64,AAAA'']"
  by (simp add: localizer_defs example_defs world_cached_def)

subsection \<open>The main content selector\<close>

lemma first_content_split:
  assumes "\<forall>t \<in> set pre. select_one t soup = None"
  shows "first_content soup (pre @ selectors) = first_content soup selectors"
  using assms by (induction pre) simp_all

lemma first_content_None:
  "(first_content soup selectors = None) = (\<forall>t \<in> set selectors. select_one t soup = None)"
  by (induction selectors) (auto split: option.splits)

text \<open>
  Claim C8. The selectors \<^verbatim>\<open>article\<close>, \<^verbatim>\<open>main\<close>, \<^verbatim>\<open>.main-content\<close>, \<^verbatim>\<open>.post-content\<close>,
  \<^verbatim>\<open>.entry-content\<close>, \<^verbatim>\<open>.content\<close>, \<^verbatim>\<open>#content\<close> are tried in this order and the
  first one with a match gives the main content; when none matches it is the \<^verbatim>\<open>body\<close>
  tag, and the whole page when there is no body. The selection is a function of the
  page.
\<close>

theorem select_main_content_order:
  "CONTENT_SELECTORS = [''article'', ''main'', ''.main-content'', ''.post-content'',
     ''.entry-content'', ''.content'', ''#content'']
   \<and> (CONTENT_SELECTORS = pre @ selector # post
       \<and> (\<forall>t \<in> set pre. select_one t soup = None)
       \<and> select_one selector soup = Some content \<longrightarrow>
      select_main_content soup = content)
   \<and> ((\<forall>t \<in> set CONTENT_SELECTORS. select_one t soup = None)
       \<and> find_tag ''body'' soup = Some body \<longrightarrow>
      select_main_content soup = body)
   \<and> ((\<forall>t \<in> set CONTENT_SELECTORS. select_one t soup = None)
       \<and> find_tag ''body'' soup = None \<longrightarrow>
      select_main_content soup = soup)"
proof (intro conjI impI)
  show "CONTENT_SELECTORS = [''article'', ''main'', ''.main-content'', ''.post-content'',
     ''.entry-content'', ''.content'', ''#content'']"
    by (simp add: CONTENT_SELECTORS_def)
next
  assume a: "CONTENT_SELECTORS = pre @ selector # post
       \<and> (\<forall>t \<in> set pre. select_one t soup = None)
       \<and> select_one selector soup = Some content"
  then have "first_content soup CONTENT_SELECTORS = first_content soup (selector # post)"
    using first_content_split [of pre soup "selector # post"] by simp
  with a show "select_main_content soup = content"
    by (simp add: select_main_content_def)
next
  assume "(\<forall>t \<in> set CONTENT_SELECTORS. select_one t soup = None)
       \<and> find_tag ''body'' soup = Some body"
  then show "select_main_content soup = body"
    using first_content_None [of soup CONTENT_SELECTORS]
    by (simp add: select_main_content_def)
next
  assume "(\<forall>t \<in> set CONTENT_SELECTORS. select_one t soup = None)
       \<and> find_tag ''body'' soup = None"
  then show "select_main_content soup = soup"
    using first_content_None [of soup CONTENT_SELECTORS]
    by (simp add: select_main_content_def)
qed

lemmas query_defs = select_one_def find_tag_def find_all_def isspace_def

theorem select_main_content_order_witness:
  "select_main_content soup_main = Tag ''main'' [] [NavigableString ''b'']
   \<and> select_main_content soup_body = Tag ''body'' [] [Tag ''p'' [] [NavigableString ''hi'']]
   \<and> select_main_content soup1 = soup1"
proof -
  have a: "CONTENT_SELECTORS = [''article''] @ ''main'' # [''.main-content'', ''.post-content'',
        ''.entry-content'', ''.content'', ''#content'']
      \<and> (\<forall>t \<in> set [''article'']. select_one t soup_main = None)
      \<and> select_one ''main'' soup_main = Some (Tag ''main'' [] [NavigableString ''b''])"
    by (simp add: CONTENT_SELECTORS_def query_defs soup_main_def)
  have b: "(\<forall>t \<in> set CONTENT_SELECTORS. select_one t soup_body = None)
      \<and> find_tag ''body'' soup_body = Some (Tag ''body'' [] [Tag ''p'' [] [NavigableString ''hi'']])"
    by (simp add: CONTENT_SELECTORS_def query_defs soup_body_def)
  have c: "(\<forall>t \<in> set CONTENT_SELECTORS. select_one t soup1 = None)
      \<and> find_tag ''body'' soup1 = None"
    by (simp add: CONTENT_SELECTORS_def query_defs soup1_def nav1_def)
  from a select_main_content_order [of "[''article'']" "''main''" _ soup_main]
  have 1: "select_main_content soup_main = Tag ''main'' [] [NavigableString ''b'']"
    by blast
  from b select_main_content_order [of _ _ _ soup_body]
  have 2: "select_main_content soup_body = Tag ''body'' [] [Tag ''p'' [] [NavigableString ''hi'']]"
    by blast
  from c select_main_content_order [of _ _ _ soup1]
  have 3: "select_main_content soup1 = soup1"
    by blast
  from 1 2 3 show ?thesis by blast
qed

subsection \<open>The page pipeline\<close>

lemma fetch_and_convert_try_status:
  assumes "\<not> mkdir_fails w save_dir"
    and "img_folder = (case img_folder_arg of None \<Rightarrow> path_join save_dir ''images'' | Some f \<Rightarrow> f)"
    and "\<not> mkdir_fails w img_folder"
    and "net w (length (requests w)) url = Response status_code content None"
    and "status_code \<noteq> 200"
  shows "fetch_and_convert_try L w url save_dir img_folder_arg =
     (Inr (None, None, None), w\<lparr>requests := requests w @ [url]\<rparr>)"
  using assms(1,3,4,5) unfolding fetch_and_convert_try_def assms(2) [symmetric] Let_def
  by (simp add: requests_get_def)

lemma fetch_and_convert_try_200:
  assumes "\<not> mkdir_fails w save_dir"
    and "img_folder = (case img_folder_arg of None \<Rightarrow> path_join save_dir ''images'' | Some f \<Rightarrow> f)"
    and "\<not> mkdir_fails w img_folder"
    and "net w (length (requests w)) url = Response 200 content None"
    and "w1 = w\<lparr>requests := requests w @ [url]\<rparr>"
    and "md_file_path = output_path (page_title (parse_html L content)) (now w) save_dir"
    and "process_images L w1 (parse_html L content) url img_folder md_file_path = (soup, w2)"
  shows "fetch_and_convert_try L w url save_dir img_folder_arg =
     (case markdownify L (select_main_content (decompose_noise soup)) of
        Inl e \<Rightarrow> (Inl e, w2)
      | Inr markdown_content \<Rightarrow>
          (case replace_md_image_urls L w2 markdown_content url img_folder md_file_path of
             (markdown_content, w3) \<Rightarrow>
               (Inr (Some (''# '' @ page_title (parse_html L content) @ [CHR 0x0A, CHR 0x0A]
                           @ markdown_content),
                     Some (page_title (parse_html L content)), Some md_file_path), w3)))"
proof -
  from assms(7) have p: "process_images L (w\<lparr>requests := requests w @ [url]\<rparr>)
      (parse_html L content) url img_folder
      (output_path (page_title (parse_html L content)) (now w) save_dir) = (soup, w2)"
    unfolding assms(5,6) .
  have n: "now (w\<lparr>requests := requests w @ [url]\<rparr>) = now w"
    by simp
  show ?thesis
    unfolding assms(6) fetch_and_convert_try_def assms(2) [symmetric] Let_def requests_get_def
      prod.case n
    using assms(1,3,4) p by simp
qed

text \<open>
  Claim C2, amended. Once the folders are made and the request for the page returns a
  response, \<^verbatim>\<open>fetch_and_convert_to_markdown\<close> returns \<^verbatim>\<open>(None, None, None)\<close> exactly
  when the status is not 200; with status 200 it goes on past the fetch.
\<close>

theorem page_fetch_status:
  assumes "\<not> mkdir_fails w save_dir"
    and "\<not> mkdir_fails w
           (case img_folder_arg of None \<Rightarrow> path_join save_dir ''images'' | Some f \<Rightarrow> f)"
    and "net w (length (requests w)) url = Response status_code content None"
  shows "(fst (fetch_and_convert_to_markdown L w url save_dir img_folder_arg) = (None, None, None))
       = (status_code \<noteq> 200)"
proof (cases "status_code = 200")
  case False
  with fetch_and_convert_try_status [OF assms(1) refl assms(2) assms(3), of L] show ?thesis
    by (simp add: fetch_and_convert_to_markdown_def)
next
  case True
  define img_folder where
    "img_folder = (case img_folder_arg of None \<Rightarrow> path_join save_dir ''images'' | Some f \<Rightarrow> f)"
  define w1 where "w1 = w\<lparr>requests := requests w @ [url]\<rparr>"
  define md_file_path where
    "md_file_path = output_path (page_title (parse_html L content)) (now w) save_dir"
  obtain soup w2 where
    p: "process_images L w1 (parse_html L content) url img_folder md_file_path = (soup, w2)"
    by (cases "process_images L w1 (parse_html L content) url img_folder md_file_path")
  note eq = fetch_and_convert_try_200 [OF assms(1) img_folder_def
      assms(2) [folded img_folder_def] assms(3) [unfolded True] w1_def md_file_path_def p]
  have "fst (fetch_and_convert_to_markdown L w url save_dir img_folder_arg) \<noteq> (None, None, None)"
    unfolding fetch_and_convert_to_markdown_def eq
    by (simp split: sum.split prod.split)
  with True show ?thesis by simp
qed

theorem page_fetch_status_witness:
  "fst (fetch_and_convert_to_markdown lib0 world0 ''http://x/p'' ''out'' None) \<noteq> (None, None, None)
   \<and> fst (fetch_and_convert_to_markdown lib0 world0 ''http://x/q'' ''out'' None) = (None, None, None)"
proof -
  have a: "\<not> mkdir_fails world0 ''out''"
    and b: "\<not> mkdir_fails world0
      (case None of None \<Rightarrow> path_join ''out'' ''images'' | Some f \<Rightarrow> f)"
    and c: "net world0 (length (requests world0)) ''http://x/p'' = Response 200 page1 None"
    and d: "net world0 (length (requests world0)) ''http://x/q'' = Response 404 [] None"
    by (simp_all add: world0_def startswith_def)
  from page_fetch_status [OF a b c, of lib0] page_fetch_status [OF a b d, of lib0]
  show ?thesis by simp
qed

text \<open>
  Claim C2 as stated fails at a 2xx status other than 200: a page answered with 204 gives
  \<^verbatim>\<open>(None, None, None)\<close>.
\<close>

theorem page_fetch_status_counterexample:
  "net world_204 (length (requests world_204)) ''http://x/p'' = Response 204 [] None
   \<and> fst (fetch_and_convert_to_markdown lib0 world_204 ''http://x/p'' ''out'' None) =
       (None, None, None)"
  by (simp add: fetch_and_convert_to_markdown_def fetch_and_convert_try_def requests_get_def
      world_204_def world0_def)

subsection \<open>The tree image rewriter runs on the whole page\<close>


lemma process_img_world:
  "snd (process_img L w attrs base_url img_folder md_file_path) =
     foldl (\<lambda>w src. snd (download_image L w src base_url img_folder)) w
       (img_source (Tag name attrs contents))"
  by (simp add: process_img_def split: option.split prod.split)

lemma process_node_world:
  "snd (process_node L base_url img_folder md_file_path w n) =
     foldl (\<lambda>w src. snd (download_image L w src base_url img_folder)) w
       (concat (map img_source (filter (is_tag ''img'') (n # descendants n))))"
  and process_nodes_world:
  "snd (process_nodes L base_url img_folder md_file_path w ns) =
     foldl (\<lambda>w src. snd (download_image L w src base_url img_folder)) w
       (concat (map img_source (filter (is_tag ''img'')
          (concat (map (\<lambda>c. c # descendants c) ns)))))"
proof (induction L base_url img_folder md_file_path w n and L base_url img_folder md_file_path w ns
    rule: process_node_process_nodes.induct)
  case (1 L base_url img_folder md_file_path w s)
  show ?case by simp
next
  case (2 L base_url img_folder md_file_path w name attrs contents)
  show ?case
  proof (cases "name = ''img''")
    case True
    obtain attrs' w1 where a: "process_img L w attrs base_url img_folder md_file_path = (attrs', w1)"
      by (cases "process_img L w attrs base_url img_folder md_file_path")
    with process_img_world [of L w attrs base_url img_folder md_file_path name contents]
    have w1: "w1 = foldl (\<lambda>w src. snd (download_image L w src base_url img_folder)) w
        (img_source (Tag name attrs contents))"
      by simp
    from "2.IH" [of attrs' w1] True a
    have "snd (process_nodes L base_url img_folder md_file_path w1 contents) =
        foldl (\<lambda>w src. snd (download_image L w src base_url img_folder)) w1
          (concat (map img_source (filter (is_tag ''img'')
             (concat (map (\<lambda>c. c # descendants c) contents)))))"
      by simp
    with True a w1 show ?thesis
      by (auto split: prod.split)
  next
    case False
    from "2.IH" [of attrs w] False
    have "snd (process_nodes L base_url img_folder md_file_path w contents) =
        foldl (\<lambda>w src. snd (download_image L w src base_url img_folder)) w
          (concat (map img_source (filter (is_tag ''img'')
             (concat (map (\<lambda>c. c # descendants c) contents)))))"
      by simp
    with False show ?thesis
      by (auto split: prod.split)
  qed
next
  case (3 L base_url img_folder md_file_path w)
  show ?case by simp
next
  case (4 L base_url img_folder md_file_path w c cs)
  obtain c' w1 where a: "process_node L base_url img_folder md_file_path w c = (c', w1)"
    by (cases "process_node L base_url img_folder md_file_path w c")
  with "4.IH"(1) have w1: "w1 = foldl (\<lambda>w src. snd (download_image L w src base_url img_folder)) w
       (concat (map img_source (filter (is_tag ''img'') (c # descendants c))))"
    by simp
  from "4.IH"(2) [of c' w1] a
  have "snd (process_nodes L base_url img_folder md_file_path w1 cs) =
     foldl (\<lambda>w src. snd (download_image L w src base_url img_folder)) w1
       (concat (map img_source (filter (is_tag ''img'')
          (concat (map (\<lambda>c. c # descendants c) cs)))))"
    by simp
  with a w1 show ?case
    by (auto split: prod.split)
qed









subsection \<open>What the text image rewriter matches; data URIs\<close>

lemma startswith_append: "startswith s p \<Longrightarrow> s = p @ drop (length p) s"
  by (metis append_take_drop_id startswith_def)

lemma match_link_url:
  assumes "match_link s = Some (url, rest)"
  shows "(startswith url ''http://'' \<or> startswith url ''https://'')
       \<and> s = '']('' @ url @ '')'' @ rest"
proof -
  define s1 where "s1 = drop 6 s"
  define s2 where "s2 = (if startswith s1 ''s'' then drop 1 s1 else s1)"
  define scheme where "scheme = (if startswith s1 ''s'' then ''https'' else ''http'')"
  define s3 where "s3 = drop 3 s2"
  define run where "run = takeWhile (\<lambda>c. c \<noteq> CHR '')'') s3"
  define rst where "rst = dropWhile (\<lambda>c. c \<noteq> CHR '')'') s3"
  from assms have a: "startswith s ''](http''" and b: "startswith s2 ''://''"
    and c: "rst \<noteq> []" and u: "url = scheme @ ''://'' @ run" and r: "rest = tl rst"
    by (auto simp: match_link_def Let_def s1_def s2_def scheme_def s3_def run_def rst_def
        split: if_splits)
  have l6: "length ''](http'' = 6" and l1: "length ''s'' = 1" and l3: "length ''://'' = 3"
    by simp_all
  from startswith_append [OF a, unfolded l6] have s: "s = ''](http'' @ s1"
    by (simp only: s1_def)
  have sch: "''http'' @ s1 = scheme @ s2"
  proof (cases "startswith s1 ''s''")
    case True
    from startswith_append [OF this, unfolded l1] have "s1 = ''s'' @ drop 1 s1" .
    with True show ?thesis by (simp add: scheme_def s2_def)
  next
    case False
    then show ?thesis by (simp add: scheme_def s2_def)
  qed
  from startswith_append [OF b, unfolded l3] have s2: "s2 = ''://'' @ s3"
    by (simp only: s3_def)
  have s3: "s3 = run @ rst"
    by (simp add: run_def rst_def)
  from c hd_dropWhile [of "\<lambda>c. c \<noteq> CHR '')''" s3] have "hd rst = CHR '')''"
    by (simp add: rst_def)
  with c have rst: "rst = '')'' @ tl rst"
    by (cases rst) simp_all
  have "s = '']'' @ ''('' @ (''http'' @ s1)"
    by (subst s) simp
  also have "\<dots> = '']'' @ ''('' @ scheme @ ''://'' @ run @ '')'' @ tl rst"
    unfolding sch by (subst s2, subst s3, subst rst) simp
  finally have "s = '']('' @ url @ '')'' @ rest"
    by (simp add: u r)
  moreover have "startswith url ''http://'' \<or> startswith url ''https://''"
    by (simp add: u scheme_def startswith_def)
  ultimately show ?thesis by blast
qed


lemma match_alt_text:
  assumes "match_alt a s = Some (alt_text, url, rest)"
  shows "\<exists>mid. alt_text = a @ mid \<and> s = mid @ '']('' @ url @ '')'' @ rest
           \<and> (startswith url ''http://'' \<or> startswith url ''https://'')"
  using assms
proof (induction a s rule: match_alt.induct)
  case (1 alt)
  then show ?case by simp
next
  case (2 alt c cs)
  show ?case
  proof (cases "match_link (c # cs)")
    case None
    with "2.prems" have n: "c \<noteq> CHR 0x0A" and m: "match_alt (alt @ [c]) cs = Some (alt_text, url, rest)"
      by (auto split: if_splits)
    from "2.IH" [OF None n m] obtain mid where
      "alt_text = (alt @ [c]) @ mid" and "cs = mid @ '']('' @ url @ '')'' @ rest"
      and "startswith url ''http://'' \<or> startswith url ''https://''"
      by blast
    then have "alt_text = alt @ (c # mid) \<and> c # cs = (c # mid) @ '']('' @ url @ '')'' @ rest
        \<and> (startswith url ''http://'' \<or> startswith url ''https://'')"
      by simp
    then show ?thesis by blast
  next
    case (Some ur)
    with "2.prems" have "alt_text = alt" and l: "match_link (c # cs) = Some (url, rest)"
      by (cases ur; simp)+
    with match_link_url [OF l] have "alt_text = alt @ [] \<and> c # cs = [] @ '']('' @ url @ '')'' @ rest
        \<and> (startswith url ''http://'' \<or> startswith url ''https://'')"
      by simp
    then show ?thesis by blast
  qed
qed

lemma match_img_text:
  assumes "match_img s = Some (alt_text, url, rest)"
  shows "s = ''!['' @ alt_text @ '']('' @ url @ '')'' @ rest
       \<and> (startswith url ''http://'' \<or> startswith url ''https://'')"
proof -
  from assms have m: "match_alt [] (drop 2 s) = Some (alt_text, url, rest)"
    by (simp add: match_img_def split: if_splits)
  from assms have b: "startswith s ''![''"
    by (simp add: match_img_def split: if_splits)
  have l2: "length ''!['' = 2"
    by simp
  from startswith_append [OF b, unfolded l2] have s: "s = ''!['' @ drop 2 s" .
  from match_alt_text [OF m] have "drop 2 s = alt_text @ '']('' @ url @ '')'' @ rest"
    and u: "startswith url ''http://'' \<or> startswith url ''https://''"
    by auto
  with s have "s = ''!['' @ alt_text @ '']('' @ url @ '')'' @ rest"
    by simp
  with u show ?thesis by blast
qed


lemma startswith_data_http:
  "startswith url ''http://'' \<or> startswith url ''https://'' \<Longrightarrow> \<not> startswith url ''data:''"
  by (cases url) (auto simp: startswith_def)

text \<open>
  Claim C7, amended. A data URI never reaches \<^verbatim>\<open>download_image\<close>: \<^verbatim>\<open>process_images\<close>
  leaves an \<^verbatim>\<open>img\<close> tag whose source is a data URI, and the state, as they are, no source
  it hands on is a data URI, and the URL of a match of the text image rewriter starts with
  \<^verbatim>\<open>http://\<close> or \<^verbatim>\<open>https://\<close>. So neither rewriter fetches anything for a data URI.
\<close>

theorem data_uri_skipped:
  "(map_of attrs ''src'' = Some src \<and> startswith src ''data:'' \<longrightarrow>
      process_img L w attrs base_url img_folder md_file_path = (attrs, w))
   \<and> (src \<in> set (image_sources soup) \<longrightarrow> \<not> startswith src ''data:'')
   \<and> (match_img s = Some (alt_text, img_url, rest) \<longrightarrow>
        (startswith img_url ''http://'' \<or> startswith img_url ''https://'')
        \<and> \<not> startswith img_url ''data:'')"
proof (intro conjI impI)
  assume "map_of attrs ''src'' = Some src \<and> startswith src ''data:''"
  then show "process_img L w attrs base_url img_folder md_file_path = (attrs, w)"
    by (simp add: process_img_def)
next
  assume "src \<in> set (image_sources soup)"
  then obtain n where "src \<in> set (img_source n)"
    by (auto simp: image_sources_def)
  then show "\<not> startswith src ''data:''"
    by (cases n) (auto split: option.splits if_splits)
next
  assume m: "match_img s = Some (alt_text, img_url, rest)"
  from match_img_text [OF m]
  show "startswith img_url ''http://'' \<or> startswith img_url ''https://''"
    by simp
  then show "\<not> startswith img_url ''data:''"
    by (rule startswith_data_http)
qed

theorem data_uri_skipped_witness:
  "process_img lib0 world0 [(''src'', ''data:image/png;base64,AAAA'')] ''http://x/p''
       ''out/images'' ''out/doc.md'' = ([(''src'', ''data:image/png;base64,AAAA'')], world0)
   \<and> \<not> startswith ''http://x/a.png'' ''data:''
   \<and> match_img ''![pic](http://x/a.png) end'' = Some (''pic'', ''http://x/a.png'', '' end'')"
proof -
  have a: "map_of [(''src'', ''data:image/png;base64,AAAA'')] ''src'' =
        Some ''data:image/png;base64,AAAA''
      \<and> startswith ''data:image/png;base64,AAAA'' ''data:''"
    by (simp add: startswith_def)
  have b: "''http://x/a.png'' \<in> set (image_sources soup1)"
    by (simp add: image_sources_def find_all_def soup1_def nav1_def startswith_def)
  have c: "match_img ''![pic](http://x/a.png) end'' = Some (''pic'', ''http://x/a.png'', '' end'')"
    by (simp add: match_img_def match_link_def startswith_def)
  from a data_uri_skipped [of "[(''src'', ''data:image/png;base64,AAAA'')]"
      "''data:image/png;base64,AAAA''" lib0 world0 "''http://x/p''" "''out/images''"
      "''out/doc.md''"]
  have 1: "process_img lib0 world0 [(''src'', ''data:image/png;base64,AAAA'')] ''http://x/p''
       ''out/images'' ''out/doc.md'' = ([(''src'', ''data:image/png;base64,AAAA'')], world0)"
    by blast
  from b c data_uri_skipped [of _ "''http://x/a.png''" _ _ _ _ _ soup1
      "''![pic](http://x/a.png) end''" "''pic''" "''http://x/a.png''" "'' end''"]
  have 2: "\<not> startswith ''http://x/a.png'' ''data:''"
    by blast
  from 1 2 c show ?thesis by blast
qed

subsection \<open>What the image rewriters leave as it is\<close>






lemma process_img_erase:
  "AList.delete ''src'' (fst (process_img L w attrs base_url img_folder md_file_path)) =
     AList.delete ''src'' attrs"
  by (simp add: process_img_def delete_update_same split: option.split prod.split)

lemma process_node_erase:
  "erase_src (fst (process_node L base_url img_folder md_file_path w n)) = erase_src n"
  and process_nodes_erase:
  "map erase_src (fst (process_nodes L base_url img_folder md_file_path w ns)) = map erase_src ns"
proof (induction L base_url img_folder md_file_path w n and L base_url img_folder md_file_path w ns
    rule: process_node_process_nodes.induct)
  case (1 L base_url img_folder md_file_path w s)
  show ?case by simp
next
  case (2 L base_url img_folder md_file_path w name attrs contents)
  obtain attrs' w1 where a: "(if name = ''img''
      then process_img L w attrs base_url img_folder md_file_path else (attrs, w)) = (attrs', w1)"
    by (cases "if name = ''img''
      then process_img L w attrs base_url img_folder md_file_path else (attrs, w)")
  from "2.IH" [OF a [symmetric]]
  have c: "map erase_src (fst (process_nodes L base_url img_folder md_file_path w1 contents)) =
      map erase_src contents" .
  have "(if name = ''img'' then AList.delete ''src'' attrs' else attrs') =
      (if name = ''img'' then AList.delete ''src'' attrs else attrs)"
  proof (cases "name = ''img''")
    case True
    with a process_img_erase [of L w attrs base_url img_folder md_file_path] show ?thesis
      by simp
  next
    case False
    with a show ?thesis by simp
  qed
  with a c show ?case
    by (auto split: prod.split)
next
  case (3 L base_url img_folder md_file_path w)
  show ?case by simp
next
  case (4 L base_url img_folder md_file_path w c cs)
  obtain c' w1 where a: "process_node L base_url img_folder md_file_path w c = (c', w1)"
    by (cases "process_node L base_url img_folder md_file_path w c")
  from "4.IH"(2) [OF a [symmetric]] "4.IH"(1) a show ?case
    by (auto split: prod.split)
qed













end
